theory Spec2Isabelle
  imports Main
begin

section \<open>The explicit-begin lint rule of Verible\<close>

text \<open>
  A shallow embedding of \<^verbatim>\<open>verilog/analysis/checkers/explicit_begin_rule.cc\<close>:
  the token-stream rule that checks that \<^verbatim>\<open>begin\<close> follows \<^verbatim>\<open>if\<close>, \<^verbatim>\<open>else\<close>,
  \<^verbatim>\<open>always\<close>, \<^verbatim>\<open>always_comb\<close>, \<^verbatim>\<open>always_latch\<close>, \<^verbatim>\<open>always_ff\<close>, \<^verbatim>\<open>forever\<close>,
  \<^verbatim>\<open>initial\<close>, \<^verbatim>\<open>for\<close>, \<^verbatim>\<open>foreach\<close> and \<^verbatim>\<open>while\<close>.
\<close>

subsection \<open>Tokens\<close>

text \<open>
  Modelled from the spec: the token enumeration is declared in the generated header
  \<^verbatim>\<open>verilog/parser/verilog_token_enum.h\<close>, which is not part of the sources at hand.
  The spec describes a closed set of token classifications (keyword kinds, punctuation,
  white space and comment markers). \<^verbatim>\<open>TokenInfo::token_enum()\<close> is an \<^verbatim>\<open>int\<close> holding
  an enumerator; the parser generator numbers the named enumerators from 258 upwards,
  pairwise distinct, and a single-character token has the code of its character as its
  value. The datatype has one constructor for each enumerator that the rule names,
  \<open>Punct c\<close> for the single-character token \<open>c\<close> (\<^verbatim>\<open>'@'\<close>, \<^verbatim>\<open>'*'\<close>, \<^verbatim>\<open>'('\<close> and
  \<^verbatim>\<open>')'\<close> in the rule), and \<open>TK_other n\<close> for every other enumerator (identifiers,
  numbers, \<^verbatim>\<open>end\<close>, \<^verbatim>\<open>posedge\<close>, ...).
\<close>

datatype verilog_tokentype =
    TK_SPACE | TK_NEWLINE | TK_COMMENT_BLOCK | TK_EOL_COMMENT
  | TK_always_comb | TK_always_latch | TK_forever | TK_initial
  | TK_always_ff | TK_foreach | TK_for | TK_if | TK_while
  | TK_always | TK_else | TK_begin
  | Punct char
  | TK_other nat

text \<open>
  Modelled from the spec: \<^verbatim>\<open>TokenInfo\<close> is declared in \<^verbatim>\<open>common/text/token_info.h\<close>,
  which is not part of the sources at hand. The spec gives a token its classification
  tag, its literal text and its source position. The rule reads \<^verbatim>\<open>token_enum()\<close> and
  \<^verbatim>\<open>text()\<close>; \<open>left\<close> is the position, the offset of the first character of the text
  in the analysed buffer.
\<close>

record TokenInfo =
  token_enum :: verilog_tokentype
  "text" :: string
  left :: nat

text \<open>
  Modelled from the spec: \<^verbatim>\<open>LintViolation\<close> is declared in
  \<^verbatim>\<open>common/analysis/lint_rule_status.h\<close>, which is not part of the sources at hand. The
  spec makes a violation a (location, message) record. The rule builds it as
  \<^verbatim>\<open>LintViolation(token, reason)\<close>: the token cited, which carries the location, and the
  message.
\<close>

record LintViolation =
  token :: TokenInfo
  reason :: string

subsection \<open>The rule object\<close>

text \<open>
  Modelled from the spec: the class \<^verbatim>\<open>ExplicitBeginRule\<close>, with its enumeration
  \<^verbatim>\<open>State\<close> and its data members, is declared in \<^verbatim>\<open>explicit_begin_rule.h\<close>, which is
  not part of the sources at hand; the names are those that \<^verbatim>\<open>explicit_begin_rule.cc\<close>
  uses (the trailing underscore of the member names is dropped). The spec gives the rule
  five states, one boolean flag per monitored statement kind, the trigger token, a
  signed depth counter and a violation set.
\<close>

datatype State = kNormal | kInAlways | kInElse | kInCondition | kExpectBegin



record ExplicitBeginRule =
  if_enable :: bool
  else_enable :: bool
  always_enable :: bool
  always_comb_enable :: bool
  always_latch_enable :: bool
  always_ff_enable :: bool
  forever_enable :: bool
  initial_enable :: bool
  for_enable :: bool
  foreach_enable :: bool
  while_enable :: bool
  state :: State
  condition_expr_level :: int
  start_token :: TokenInfo
  violations :: "LintViolation set"

definition kMessage :: string where
  "kMessage = '' block constructs shall explicitly use begin/end.''"

subsection \<open>IsTokenEnabled\<close>

definition IsTokenEnabled :: "ExplicitBeginRule \<Rightarrow> TokenInfo \<Rightarrow> bool" where
  "IsTokenEnabled r tok =
     (case token_enum tok of
        TK_always_comb \<Rightarrow> always_comb_enable r
      | TK_always_latch \<Rightarrow> always_latch_enable r
      | TK_forever \<Rightarrow> forever_enable r
      | TK_initial \<Rightarrow> initial_enable r
      | TK_always_ff \<Rightarrow> always_ff_enable r
      | TK_foreach \<Rightarrow> foreach_enable r
      | TK_for \<Rightarrow> for_enable r
      | TK_if \<Rightarrow> if_enable r
      | TK_while \<Rightarrow> while_enable r
      | TK_always \<Rightarrow> always_enable r
      | TK_else \<Rightarrow> else_enable r
      | _ \<Rightarrow> False)"

subsection \<open>HandleToken\<close>

text \<open>The first \<^verbatim>\<open>switch\<close> of \<^verbatim>\<open>HandleToken\<close>: white space and comments.\<close>

definition is_whitespace_or_comment :: "TokenInfo \<Rightarrow> bool" where
  "is_whitespace_or_comment tok =
     (token_enum tok \<in> {TK_SPACE, TK_NEWLINE, TK_COMMENT_BLOCK, TK_EOL_COMMENT})"

text \<open>
  The \<^verbatim>\<open>switch (state_)\<close> block. It returns the updated object and the local
  \<^verbatim>\<open>raise_violation\<close>. The early \<^verbatim>\<open>return\<close> of the \<^verbatim>\<open>kNormal\<close> case is the
  unchanged object with \<^verbatim>\<open>raise_violation\<close> false, after which the rest of
  \<^verbatim>\<open>HandleToken\<close> does nothing. In the \<^verbatim>\<open>kInCondition\<close> case, \<^verbatim>\<open>case ')'\<close> falls
  through into \<^verbatim>\<open>default\<close>, which only breaks; there \<^verbatim>\<open>condition_expr_level_++\<close> and
  \<^verbatim>\<open>condition_expr_level_--\<close> are \<open>+ 1\<close> and \<open>- 1\<close> on \<open>int\<close>, which is what the code
  computes unless the counter is \<open>INT_MAX\<close> before \<^verbatim>\<open>++\<close> or \<open>INT_MIN\<close> before \<^verbatim>\<open>--\<close>.
\<close>

definition switch_state :: "ExplicitBeginRule \<Rightarrow> TokenInfo \<Rightarrow> ExplicitBeginRule \<times> bool" where
  "switch_state r tok =
     (let k = token_enum tok in
      case state r of
        kNormal \<Rightarrow>
          if \<not> IsTokenEnabled r tok then (r, False)
          else if k \<in> {TK_always_comb, TK_always_latch, TK_forever, TK_initial} then
            (r\<lparr>start_token := tok, state := kExpectBegin\<rparr>, False)
          else if k \<in> {TK_always_ff, TK_foreach, TK_for, TK_if, TK_while} then
            (r\<lparr>condition_expr_level := 0, start_token := tok, state := kInCondition\<rparr>, False)
          else if k = TK_always then
            (r\<lparr>condition_expr_level := 0, start_token := tok, state := kInAlways\<rparr>, False)
          else if k = TK_else then
            (r\<lparr>start_token := tok, state := kInElse\<rparr>, False)
          else (r, False)
      | kInAlways \<Rightarrow>
          if k = Punct CHR ''@'' \<or> k = Punct CHR ''*'' then (r, False)
          else if k = TK_begin then (r\<lparr>state := kNormal\<rparr>, False)
          else if k = Punct CHR ''('' then
            (r\<lparr>condition_expr_level := 1, state := kInCondition\<rparr>, False)
          else (r, True)
      | kInElse \<Rightarrow>
          if k = TK_if then
            (if if_enable r then
               (r\<lparr>condition_expr_level := 0, start_token := tok, state := kInCondition\<rparr>, False)
             else (r\<lparr>state := kNormal\<rparr>, False))
          else if k = TK_begin then (r\<lparr>state := kNormal\<rparr>, False)
          else (r, True)
      | kInCondition \<Rightarrow>
          if k = Punct CHR ''('' then
            (r\<lparr>condition_expr_level := condition_expr_level r + 1\<rparr>, False)
          else if k = Punct CHR '')'' then
            (let r1 = r\<lparr>condition_expr_level := condition_expr_level r - 1\<rparr> in
             if condition_expr_level r1 = 0 then (r1\<lparr>state := kExpectBegin\<rparr>, False)
             else (r1, False))
          else (r, False)
      | kExpectBegin \<Rightarrow>
          if k = TK_begin then (r\<lparr>state := kNormal\<rparr>, False)
          else (r, True))"

text \<open>
  The violation that \<^verbatim>\<open>HandleToken\<close> builds: it cites \<^verbatim>\<open>start_token_\<close>, and its
  reason is \<^verbatim>\<open>StrCat(start_token_.text(), kMessage, " Expected begin, got ", token.text())\<close>.
\<close>

definition make_violation :: "ExplicitBeginRule \<Rightarrow> TokenInfo \<Rightarrow> LintViolation" where
  "make_violation r tok =
     \<lparr>token = start_token r,
      reason = text (start_token r) @ kMessage @ '' Expected begin, got '' @ text tok\<rparr>"

definition HandleToken :: "ExplicitBeginRule \<Rightarrow> TokenInfo \<Rightarrow> ExplicitBeginRule" where
  "HandleToken r tok =
     (if is_whitespace_or_comment tok then r
      else
        (let (r1, raise_violation) = switch_state r tok in
         if raise_violation then
           r1\<lparr>violations := insert (make_violation r1 tok) (violations r1),
              condition_expr_level := 0,
              state := kNormal\<rparr>
         else r1))"

text \<open>
  Modelled from the spec: the token-stream driver is outside the sources at hand. It
  supplies the tokens in source order, in a single forward pass: one call of
  \<^verbatim>\<open>HandleToken\<close> per token.
\<close>

definition handle_tokens :: "ExplicitBeginRule \<Rightarrow> TokenInfo list \<Rightarrow> ExplicitBeginRule" where
  "handle_tokens r ts = foldl HandleToken r ts"

subsection \<open>A freshly constructed rule\<close>

text \<open>
  Modelled from the spec: the default member initialisers of the class are in
  \<^verbatim>\<open>explicit_begin_rule.h\<close>, which is not part of the sources at hand. Every enable
  flag defaults to true (the descriptor documents the default \<^verbatim>\<open>"true"\<close> for each
  parameter), the state is \<open>Normal\<close>, the depth is 0, no violation is recorded, and the
  start token is an end-of-file token with empty text.
\<close>

definition fresh_rule :: ExplicitBeginRule where
  "fresh_rule =
     \<lparr>if_enable = True, else_enable = True, always_enable = True,
      always_comb_enable = True, always_latch_enable = True, always_ff_enable = True,
      forever_enable = True, initial_enable = True, for_enable = True,
      foreach_enable = True, while_enable = True,
      state = kNormal, condition_expr_level = 0,
      start_token = \<lparr>token_enum = TK_other 0, text = [], left = 0\<rparr>,
      violations = {}\<rparr>"

subsection \<open>Report\<close>

text \<open>
  Modelled from the spec: the type \<^verbatim>\<open>LintRuleDescriptor\<close> is declared in
  \<^verbatim>\<open>verilog/analysis/descriptions.h\<close>, which is not part of the sources at hand. The
  spec makes the descriptor pure data: the rule name, a one-line topic, a description and
  the list of (option name, default, help text) tuples. \<^verbatim>\<open>GetDescriptor\<close> returns this
  constant.
\<close>

record LintRuleDescriptor =
  name :: string
  topic :: string
  desc :: string
  param :: "(string \<times> string \<times> string) list"

definition GetDescriptor :: LintRuleDescriptor where
  "GetDescriptor =
     \<lparr>name = ''explicit-begin'',
      topic = ''explicit-begin'',
      desc = ''Checks that a Verilog ``begin`` directive follows all ''
           @ ''if, else, always, always_comb, always_latch, always_ff,''
           @ '' forever, initial, for, foreach and while statements.'',
      param =
        [(''if_enable'', ''true'',
          ''All if statements require an explicit begin-end block''),
         (''else_enable'', ''true'',
          ''All else statements require an explicit begin-end block''),
         (''always_enable'', ''true'',
          ''All always statements require an explicit begin-end block''),
         (''always_comb_enable'', ''true'',
          ''All always_comb statements require an explicit begin-end block''),
         (''always_latch_enable'', ''true'',
          ''All always_latch statements require an explicit begin-end block''),
         (''always_ff_enable'', ''true'',
          ''All always_ff statements require an explicit begin-end block''),
         (''forever_enable'', ''true'',
          ''All forever statements require an explicit begin-end block''),
         (''initial_enable'', ''true'',
          ''All initial statements require an explicit begin-end block''),
         (''for_enable'', ''true'',
          ''All for statements require an explicit begin-end block''),
         (''foreach_enable'', ''true'',
          ''All foreach statements require an explicit begin-end block''),
         (''while_enable'', ''true'',
          ''All while statements require an explicit begin-end block'')]\<rparr>"

text \<open>
  Modelled from the spec: \<^verbatim>\<open>LintRuleStatus\<close> is declared in
  \<^verbatim>\<open>common/analysis/lint_rule_status.h\<close>, which is not part of the sources at hand; the
  spec makes the report the accumulated violation set paired with the rule metadata.
  \<^verbatim>\<open>Report\<close> is a \<^verbatim>\<open>const\<close> member: it returns
  \<^verbatim>\<open>LintRuleStatus(violations_, GetDescriptor())\<close> and leaves the object as it is.
\<close>

definition Report :: "ExplicitBeginRule \<Rightarrow> LintViolation set \<times> LintRuleDescriptor" where
  "Report r = (violations r, GetDescriptor)"

subsection \<open>Configure\<close>

text \<open>
  Modelled from the spec: the status that \<^verbatim>\<open>Configure\<close> returns, and the two functions
  \<^verbatim>\<open>verible::ParseNameValues\<close> and \<^verbatim>\<open>verible::config::SetBool\<close> that it calls; they
  live in \<^verbatim>\<open>common/text/config_utils\<close>, which is not part of the sources at hand, and
  \<^verbatim>\<open>Configure\<close> does nothing else. The spec says of them: the configuration gives a boolean
  string representation to option names; a key that is not recognized, or a value that
  is not a valid boolean token, is a configuration error; a key that is not mentioned
  keeps its value. The configuration is taken as the list of its (name, value) pairs, in
  order, and the reading of a boolean token is the parameter \<open>parse_bool\<close>
  (\<open>None\<close> for a token that is not valid), since the spec fixes neither the separators
  nor the valid tokens.
\<close>

datatype config_error = ConfigurationError

text \<open>
  Modelled from the spec: \<^verbatim>\<open>verible::config::SetBool\<close>, not part of the sources at
  hand. \<open>SetBool parse_bool store\<close> is the setter that \<^verbatim>\<open>SetBool(&flag)\<close> returns:
  it fails on a value that is not a valid boolean token and otherwise stores the boolean;
  \<open>store\<close> writes the flag that the pointer designates.
\<close>

definition SetBool ::
  "(string \<Rightarrow> bool option) \<Rightarrow> (bool \<Rightarrow> 'a \<Rightarrow> 'a) \<Rightarrow> string \<Rightarrow> 'a \<Rightarrow> config_error + 'a" where
  "SetBool parse_bool store v r =
     (case parse_bool v of None \<Rightarrow> Inl ConfigurationError | Some b \<Rightarrow> Inr (store b r))"

text \<open>
  Modelled from the spec: \<^verbatim>\<open>verible::ParseNameValues\<close>, not part of the sources at hand.
  It takes the (name, value) pairs in order, fails on a name that has no setter, and
  otherwise runs the setter of the name on the value, failing when the setter fails.
\<close>

fun ParseNameValues ::
  "(string \<times> string) list \<Rightarrow> (string \<times> (string \<Rightarrow> 'a \<Rightarrow> config_error + 'a)) list \<Rightarrow> 'a
     \<Rightarrow> config_error + 'a" where
  "ParseNameValues [] spec r = Inr r"
| "ParseNameValues ((k, v) # rest) spec r =
     (case map_of spec k of
        None \<Rightarrow> Inl ConfigurationError
      | Some setter \<Rightarrow>
          (case setter v r of
             Inl e \<Rightarrow> Inl e
           | Inr r' \<Rightarrow> ParseNameValues rest spec r'))"

text \<open>
  \<^verbatim>\<open>Configure\<close> itself. \<open>Configure_setters\<close> is the initializer list of eleven (name,
  setter) pairs that it passes to \<^verbatim>\<open>ParseNameValues\<close>.
\<close>

definition Configure_setters ::
  "(string \<Rightarrow> bool option)
     \<Rightarrow> (string \<times> (string \<Rightarrow> ExplicitBeginRule \<Rightarrow> config_error + ExplicitBeginRule)) list" where
  "Configure_setters parse_bool =
     [(''if_enable'', SetBool parse_bool (\<lambda>b r. r\<lparr>if_enable := b\<rparr>)),
      (''else_enable'', SetBool parse_bool (\<lambda>b r. r\<lparr>else_enable := b\<rparr>)),
      (''always_enable'', SetBool parse_bool (\<lambda>b r. r\<lparr>always_enable := b\<rparr>)),
      (''always_comb_enable'', SetBool parse_bool (\<lambda>b r. r\<lparr>always_comb_enable := b\<rparr>)),
      (''always_latch_enable'', SetBool parse_bool (\<lambda>b r. r\<lparr>always_latch_enable := b\<rparr>)),
      (''always_ff_enable'', SetBool parse_bool (\<lambda>b r. r\<lparr>always_ff_enable := b\<rparr>)),
      (''forever_enable'', SetBool parse_bool (\<lambda>b r. r\<lparr>forever_enable := b\<rparr>)),
      (''initial_enable'', SetBool parse_bool (\<lambda>b r. r\<lparr>initial_enable := b\<rparr>)),
      (''for_enable'', SetBool parse_bool (\<lambda>b r. r\<lparr>for_enable := b\<rparr>)),
      (''foreach_enable'', SetBool parse_bool (\<lambda>b r. r\<lparr>foreach_enable := b\<rparr>)),
      (''while_enable'', SetBool parse_bool (\<lambda>b r. r\<lparr>while_enable := b\<rparr>))]"

definition Configure ::
  "(string \<Rightarrow> bool option) \<Rightarrow> (string \<times> string) list \<Rightarrow> ExplicitBeginRule
     \<Rightarrow> config_error + ExplicitBeginRule" where
  "Configure parse_bool configuration r =
     ParseNameValues configuration (Configure_setters parse_bool) r"

section \<open>Notions used in the properties\<close>

text \<open>
  A violation fires when the \<^verbatim>\<open>if (raise_violation)\<close> block of \<^verbatim>\<open>HandleToken\<close>
  is entered: the token passed the first switch and the state switch set the flag.
\<close>

definition raises_violation :: "ExplicitBeginRule \<Rightarrow> TokenInfo \<Rightarrow> bool" where
  "raises_violation r tok \<longleftrightarrow> \<not> is_whitespace_or_comment tok \<and> snd (switch_state r tok)"


text \<open>
  The number of \<^verbatim>\<open>(\<close> tokens minus the number of \<^verbatim>\<open>)\<close> tokens of a stream.
\<close>

fun paren_depth :: "TokenInfo list \<Rightarrow> int" where
  "paren_depth [] = 0"
| "paren_depth (t # ts) =
     (if token_enum t = Punct CHR ''('' then 1
      else if token_enum t = Punct CHR '')'' then - 1 else 0) + paren_depth ts"

text \<open>
  A condition with balanced nested parentheses: the stream opens with \<^verbatim>\<open>(\<close>, every
  proper non-empty prefix has more \<^verbatim>\<open>(\<close> than \<^verbatim>\<open>)\<close>, and the whole stream has as
  many of one as of the other. So the parenthesis that opens the condition is closed by the
  last token and by no earlier one.
\<close>

definition balanced_condition :: "TokenInfo list \<Rightarrow> bool" where
  "balanced_condition ts \<longleftrightarrow>
     ts \<noteq> [] \<and> token_enum (hd ts) = Punct CHR ''('' \<and> paren_depth ts = 0 \<and>
     (\<forall>n \<in> {1..<length ts}. 0 < paren_depth (take n ts))"

text \<open>
  The keys that \<^verbatim>\<open>Configure\<close> recognizes, each with the flag it sets.
\<close>

definition enable_flags :: "(string \<times> (ExplicitBeginRule \<Rightarrow> bool)) list" where
  "enable_flags =
     [(''if_enable'', if_enable), (''else_enable'', else_enable),
      (''always_enable'', always_enable), (''always_comb_enable'', always_comb_enable),
      (''always_latch_enable'', always_latch_enable), (''always_ff_enable'', always_ff_enable),
      (''forever_enable'', forever_enable), (''initial_enable'', initial_enable),
      (''for_enable'', for_enable), (''foreach_enable'', foreach_enable),
      (''while_enable'', while_enable)]"

text \<open>Two rule objects that are configured identically.\<close>

definition same_config :: "ExplicitBeginRule \<Rightarrow> ExplicitBeginRule \<Rightarrow> bool" where
  "same_config r1 r2 \<longleftrightarrow>
     if_enable r1 = if_enable r2 \<and> else_enable r1 = else_enable r2 \<and>
     always_enable r1 = always_enable r2 \<and> always_comb_enable r1 = always_comb_enable r2 \<and>
     always_latch_enable r1 = always_latch_enable r2 \<and> always_ff_enable r1 = always_ff_enable r2 \<and>
     forever_enable r1 = forever_enable r2 \<and> initial_enable r1 = initial_enable r2 \<and>
     for_enable r1 = for_enable r2 \<and> foreach_enable r1 = foreach_enable r2 \<and>
     while_enable r1 = while_enable r2"

text \<open>
  Two rule objects that agree on everything a later token can observe: the configuration,
  the state, the violations, the start token when a construct is pending, and the depth
  when a condition is being read.
\<close>

definition same_pending :: "ExplicitBeginRule \<Rightarrow> ExplicitBeginRule \<Rightarrow> bool" where
  "same_pending r1 r2 \<longleftrightarrow>
     same_config r1 r2 \<and> state r1 = state r2 \<and> violations r1 = violations r2 \<and>
     (state r1 \<noteq> kNormal \<longrightarrow> start_token r1 = start_token r2) \<and>
     (state r1 = kInCondition \<longrightarrow> condition_expr_level r1 = condition_expr_level r2)"

text \<open>
  An invariant over the tokens \<open>S\<close> read so far: every violation cites a token of \<open>S\<close>,
  and while a construct is pending its start token is in \<open>S\<close> and no violation cites it.
\<close>

definition pending_uncited :: "TokenInfo set \<Rightarrow> ExplicitBeginRule \<Rightarrow> bool" where
  "pending_uncited S r \<longleftrightarrow>
     (\<forall>v\<in>violations r. token v \<in> S) \<and>
     (state r \<noteq> kNormal \<longrightarrow>
        start_token r \<in> S \<and> (\<forall>v\<in>violations r. token v \<noteq> start_token r))"

section \<open>Example token streams\<close>

text \<open>
  The lexer's token streams of some source lines, with the spaces. In these streams
  \<open>TK_other 1\<close> stands for the enumerator of an identifier, \<open>TK_other 2\<close> for that of a
  number, \<open>TK_other 3\<close> and \<open>TK_other 4\<close> for those of \<^verbatim>\<open>&&\<close> and \<^verbatim>\<open>||\<close>,
  \<open>TK_other 5\<close> for that of \<^verbatim>\<open>posedge\<close> and \<open>TK_other 6\<close> for that of \<^verbatim>\<open>end\<close>.
\<close>

text \<open>\<^verbatim>\<open>if (x) begin y = 1; end\<close>\<close>

definition tokens_if_begin :: "TokenInfo list" where
  "tokens_if_begin =
     [\<lparr>token_enum = TK_if, text = ''if'', left = 0\<rparr>,
      \<lparr>token_enum = TK_SPACE, text = '' '', left = 2\<rparr>,
      \<lparr>token_enum = Punct CHR ''('', text = ''('', left = 3\<rparr>,
      \<lparr>token_enum = TK_other 1, text = ''x'', left = 4\<rparr>,
      \<lparr>token_enum = Punct CHR '')'', text = '')'', left = 5\<rparr>,
      \<lparr>token_enum = TK_SPACE, text = '' '', left = 6\<rparr>,
      \<lparr>token_enum = TK_begin, text = ''begin'', left = 7\<rparr>,
      \<lparr>token_enum = TK_SPACE, text = '' '', left = 12\<rparr>,
      \<lparr>token_enum = TK_other 1, text = ''y'', left = 13\<rparr>,
      \<lparr>token_enum = TK_SPACE, text = '' '', left = 14\<rparr>,
      \<lparr>token_enum = Punct CHR ''='', text = ''='', left = 15\<rparr>,
      \<lparr>token_enum = TK_SPACE, text = '' '', left = 16\<rparr>,
      \<lparr>token_enum = TK_other 2, text = ''1'', left = 17\<rparr>,
      \<lparr>token_enum = Punct CHR '';'', text = '';'', left = 18\<rparr>,
      \<lparr>token_enum = TK_SPACE, text = '' '', left = 19\<rparr>,
      \<lparr>token_enum = TK_other 6, text = ''end'', left = 20\<rparr>]"

text \<open>\<^verbatim>\<open>if (x) y = 1;\<close>\<close>

definition tokens_if_no_begin :: "TokenInfo list" where
  "tokens_if_no_begin =
     [\<lparr>token_enum = TK_if, text = ''if'', left = 0\<rparr>,
      \<lparr>token_enum = TK_SPACE, text = '' '', left = 2\<rparr>,
      \<lparr>token_enum = Punct CHR ''('', text = ''('', left = 3\<rparr>,
      \<lparr>token_enum = TK_other 1, text = ''x'', left = 4\<rparr>,
      \<lparr>token_enum = Punct CHR '')'', text = '')'', left = 5\<rparr>,
      \<lparr>token_enum = TK_SPACE, text = '' '', left = 6\<rparr>,
      \<lparr>token_enum = TK_other 1, text = ''y'', left = 7\<rparr>,
      \<lparr>token_enum = TK_SPACE, text = '' '', left = 8\<rparr>,
      \<lparr>token_enum = Punct CHR ''='', text = ''='', left = 9\<rparr>,
      \<lparr>token_enum = TK_SPACE, text = '' '', left = 10\<rparr>,
      \<lparr>token_enum = TK_other 2, text = ''1'', left = 11\<rparr>,
      \<lparr>token_enum = Punct CHR '';'', text = '';'', left = 12\<rparr>]"


text \<open>\<^verbatim>\<open>always @(posedge clk) begin\<close>\<close>

definition tokens_always_begin :: "TokenInfo list" where
  "tokens_always_begin =
     [\<lparr>token_enum = TK_always, text = ''always'', left = 0\<rparr>,
      \<lparr>token_enum = TK_SPACE, text = '' '', left = 6\<rparr>,
      \<lparr>token_enum = Punct CHR ''@'', text = ''@'', left = 7\<rparr>,
      \<lparr>token_enum = Punct CHR ''('', text = ''('', left = 8\<rparr>,
      \<lparr>token_enum = TK_other 5, text = ''posedge'', left = 9\<rparr>,
      \<lparr>token_enum = TK_SPACE, text = '' '', left = 16\<rparr>,
      \<lparr>token_enum = TK_other 1, text = ''clk'', left = 17\<rparr>,
      \<lparr>token_enum = Punct CHR '')'', text = '')'', left = 20\<rparr>,
      \<lparr>token_enum = TK_SPACE, text = '' '', left = 21\<rparr>,
      \<lparr>token_enum = TK_begin, text = ''begin'', left = 22\<rparr>]"

text \<open>\<^verbatim>\<open>always @(posedge clk) y = 1;\<close>\<close>

definition tokens_always_no_begin :: "TokenInfo list" where
  "tokens_always_no_begin =
     [\<lparr>token_enum = TK_always, text = ''always'', left = 0\<rparr>,
      \<lparr>token_enum = TK_SPACE, text = '' '', left = 6\<rparr>,
      \<lparr>token_enum = Punct CHR ''@'', text = ''@'', left = 7\<rparr>,
      \<lparr>token_enum = Punct CHR ''('', text = ''('', left = 8\<rparr>,
      \<lparr>token_enum = TK_other 5, text = ''posedge'', left = 9\<rparr>,
      \<lparr>token_enum = TK_SPACE, text = '' '', left = 16\<rparr>,
      \<lparr>token_enum = TK_other 1, text = ''clk'', left = 17\<rparr>,
      \<lparr>token_enum = Punct CHR '')'', text = '')'', left = 20\<rparr>,
      \<lparr>token_enum = TK_SPACE, text = '' '', left = 21\<rparr>,
      \<lparr>token_enum = TK_other 1, text = ''y'', left = 22\<rparr>,
      \<lparr>token_enum = TK_SPACE, text = '' '', left = 23\<rparr>,
      \<lparr>token_enum = Punct CHR ''='', text = ''='', left = 24\<rparr>,
      \<lparr>token_enum = TK_SPACE, text = '' '', left = 25\<rparr>,
      \<lparr>token_enum = TK_other 2, text = ''1'', left = 26\<rparr>,
      \<lparr>token_enum = Punct CHR '';'', text = '';'', left = 27\<rparr>]"

text \<open>\<^verbatim>\<open>if (x\<close>\<close>

definition tokens_if_open :: "TokenInfo list" where
  "tokens_if_open =
     [\<lparr>token_enum = TK_if, text = ''if'', left = 0\<rparr>,
      \<lparr>token_enum = TK_SPACE, text = '' '', left = 2\<rparr>,
      \<lparr>token_enum = Punct CHR ''('', text = ''('', left = 3\<rparr>,
      \<lparr>token_enum = TK_other 1, text = ''x'', left = 4\<rparr>]"

text \<open>\<^verbatim>\<open>if (x)\<close>\<close>

definition tokens_if_closed :: "TokenInfo list" where
  "tokens_if_closed =
     [\<lparr>token_enum = TK_if, text = ''if'', left = 0\<rparr>,
      \<lparr>token_enum = TK_SPACE, text = '' '', left = 2\<rparr>,
      \<lparr>token_enum = Punct CHR ''('', text = ''('', left = 3\<rparr>,
      \<lparr>token_enum = TK_other 1, text = ''x'', left = 4\<rparr>,
      \<lparr>token_enum = Punct CHR '')'', text = '')'', left = 5\<rparr>]"

text \<open>\<^verbatim>\<open>(a for (b) c = 1;\<close>\<close>

definition tokens_unclosed :: "TokenInfo list" where
  "tokens_unclosed =
     [\<lparr>token_enum = Punct CHR ''('', text = ''('', left = 3\<rparr>,
      \<lparr>token_enum = TK_other 1, text = ''a'', left = 4\<rparr>,
      \<lparr>token_enum = TK_SPACE, text = '' '', left = 5\<rparr>,
      \<lparr>token_enum = TK_for, text = ''for'', left = 6\<rparr>,
      \<lparr>token_enum = TK_SPACE, text = '' '', left = 9\<rparr>,
      \<lparr>token_enum = Punct CHR ''('', text = ''('', left = 10\<rparr>,
      \<lparr>token_enum = TK_other 1, text = ''b'', left = 11\<rparr>,
      \<lparr>token_enum = Punct CHR '')'', text = '')'', left = 12\<rparr>,
      \<lparr>token_enum = TK_SPACE, text = '' '', left = 13\<rparr>,
      \<lparr>token_enum = TK_other 1, text = ''c'', left = 14\<rparr>,
      \<lparr>token_enum = TK_SPACE, text = '' '', left = 15\<rparr>,
      \<lparr>token_enum = Punct CHR ''='', text = ''='', left = 16\<rparr>,
      \<lparr>token_enum = TK_SPACE, text = '' '', left = 17\<rparr>,
      \<lparr>token_enum = TK_other 2, text = ''1'', left = 18\<rparr>,
      \<lparr>token_enum = Punct CHR '';'', text = '';'', left = 19\<rparr>]"

text \<open>
  One possible reading of boolean tokens, to run \<^verbatim>\<open>Configure\<close> on an example.
\<close>

definition example_parse_bool :: "string \<Rightarrow> bool option" where
  "example_parse_bool v =
     (if v = ''true'' then Some True else if v = ''false'' then Some False else None)"

section \<open>Basic facts\<close>

lemma handle_tokens_Nil: "handle_tokens r [] = r"
  by (simp add: handle_tokens_def)

lemma handle_tokens_Cons: "handle_tokens r (t # ts) = handle_tokens (HandleToken r t) ts"
  by (simp add: handle_tokens_def)

lemma handle_tokens_append:
  "handle_tokens r (xs @ ys) = handle_tokens (handle_tokens r xs) ys"
  by (simp add: handle_tokens_def)

lemma HandleToken_whitespace: "is_whitespace_or_comment t \<Longrightarrow> HandleToken r t = r"
  by (simp add: HandleToken_def)

lemma handle_tokens_filter:
  "handle_tokens r (filter (\<lambda>t. \<not> is_whitespace_or_comment t) ts) = handle_tokens r ts"
  by (induction ts arbitrary: r)
     (simp_all add: handle_tokens_Nil handle_tokens_Cons HandleToken_whitespace)

subsection \<open>One call of HandleToken, by state and token\<close>

lemma HandleToken_Normal_disabled:
  "state r = kNormal \<Longrightarrow> \<not> IsTokenEnabled r t \<Longrightarrow> HandleToken r t = r"
  by (simp add: HandleToken_def switch_state_def)

lemma HandleToken_Normal_expect:
  "state r = kNormal \<Longrightarrow> IsTokenEnabled r t \<Longrightarrow>
   token_enum t \<in> {TK_always_comb, TK_always_latch, TK_forever, TK_initial} \<Longrightarrow>
   HandleToken r t = r\<lparr>start_token := t, state := kExpectBegin\<rparr>"
  by (auto simp add: HandleToken_def switch_state_def is_whitespace_or_comment_def)

lemma HandleToken_Normal_condition:
  "state r = kNormal \<Longrightarrow> IsTokenEnabled r t \<Longrightarrow>
   token_enum t \<in> {TK_always_ff, TK_foreach, TK_for, TK_if, TK_while} \<Longrightarrow>
   HandleToken r t = r\<lparr>condition_expr_level := 0, start_token := t, state := kInCondition\<rparr>"
  by (auto simp add: HandleToken_def switch_state_def is_whitespace_or_comment_def)

lemma HandleToken_Normal_always:
  "state r = kNormal \<Longrightarrow> IsTokenEnabled r t \<Longrightarrow> token_enum t = TK_always \<Longrightarrow>
   HandleToken r t = r\<lparr>condition_expr_level := 0, start_token := t, state := kInAlways\<rparr>"
  by (simp add: HandleToken_def switch_state_def is_whitespace_or_comment_def)

lemma HandleToken_Normal_else:
  "state r = kNormal \<Longrightarrow> IsTokenEnabled r t \<Longrightarrow> token_enum t = TK_else \<Longrightarrow>
   HandleToken r t = r\<lparr>start_token := t, state := kInElse\<rparr>"
  by (simp add: HandleToken_def switch_state_def is_whitespace_or_comment_def)

lemma HandleToken_InAlways_skip:
  "state r = kInAlways \<Longrightarrow> token_enum t = Punct CHR ''@'' \<or> token_enum t = Punct CHR ''*'' \<Longrightarrow>
   HandleToken r t = r"
  by (auto simp add: HandleToken_def switch_state_def is_whitespace_or_comment_def)

lemma HandleToken_InAlways_begin:
  "state r = kInAlways \<Longrightarrow> token_enum t = TK_begin \<Longrightarrow> HandleToken r t = r\<lparr>state := kNormal\<rparr>"
  by (simp add: HandleToken_def switch_state_def is_whitespace_or_comment_def)

lemma HandleToken_InAlways_lparen:
  "state r = kInAlways \<Longrightarrow> token_enum t = Punct CHR ''('' \<Longrightarrow>
   HandleToken r t = r\<lparr>condition_expr_level := 1, state := kInCondition\<rparr>"
  by (simp add: HandleToken_def switch_state_def is_whitespace_or_comment_def)

lemma HandleToken_InAlways_other:
  "state r = kInAlways \<Longrightarrow> \<not> is_whitespace_or_comment t \<Longrightarrow>
   token_enum t \<notin> {Punct CHR ''@'', Punct CHR ''*'', TK_begin, Punct CHR ''(''} \<Longrightarrow>
   HandleToken r t = r\<lparr>violations := insert (make_violation r t) (violations r),
                        condition_expr_level := 0, state := kNormal\<rparr>"
  by (simp add: HandleToken_def switch_state_def)

lemma HandleToken_InElse_if_enabled:
  "state r = kInElse \<Longrightarrow> token_enum t = TK_if \<Longrightarrow> if_enable r \<Longrightarrow>
   HandleToken r t = r\<lparr>condition_expr_level := 0, start_token := t, state := kInCondition\<rparr>"
  by (simp add: HandleToken_def switch_state_def is_whitespace_or_comment_def)


lemma HandleToken_InElse_begin:
  "state r = kInElse \<Longrightarrow> token_enum t = TK_begin \<Longrightarrow> HandleToken r t = r\<lparr>state := kNormal\<rparr>"
  by (simp add: HandleToken_def switch_state_def is_whitespace_or_comment_def)

lemma HandleToken_InElse_other:
  "state r = kInElse \<Longrightarrow> \<not> is_whitespace_or_comment t \<Longrightarrow>
   token_enum t \<notin> {TK_if, TK_begin} \<Longrightarrow>
   HandleToken r t = r\<lparr>violations := insert (make_violation r t) (violations r),
                        condition_expr_level := 0, state := kNormal\<rparr>"
  by (simp add: HandleToken_def switch_state_def)

lemma HandleToken_InCondition_lparen:
  "state r = kInCondition \<Longrightarrow> token_enum t = Punct CHR ''('' \<Longrightarrow>
   HandleToken r t = r\<lparr>condition_expr_level := condition_expr_level r + 1\<rparr>"
  by (simp add: HandleToken_def switch_state_def is_whitespace_or_comment_def)

lemma HandleToken_InCondition_rparen_close:
  "state r = kInCondition \<Longrightarrow> token_enum t = Punct CHR '')'' \<Longrightarrow>
   condition_expr_level r - 1 = 0 \<Longrightarrow>
   HandleToken r t = r\<lparr>condition_expr_level := condition_expr_level r - 1, state := kExpectBegin\<rparr>"
  by (simp add: HandleToken_def switch_state_def is_whitespace_or_comment_def)

lemma HandleToken_InCondition_rparen_open:
  "state r = kInCondition \<Longrightarrow> token_enum t = Punct CHR '')'' \<Longrightarrow>
   condition_expr_level r - 1 \<noteq> 0 \<Longrightarrow>
   HandleToken r t = r\<lparr>condition_expr_level := condition_expr_level r - 1\<rparr>"
  by (simp add: HandleToken_def switch_state_def is_whitespace_or_comment_def)

lemma HandleToken_InCondition_other:
  "state r = kInCondition \<Longrightarrow> token_enum t \<noteq> Punct CHR ''('' \<Longrightarrow>
   token_enum t \<noteq> Punct CHR '')'' \<Longrightarrow> HandleToken r t = r"
  by (simp add: HandleToken_def switch_state_def)

lemma HandleToken_ExpectBegin_begin:
  "state r = kExpectBegin \<Longrightarrow> token_enum t = TK_begin \<Longrightarrow> HandleToken r t = r\<lparr>state := kNormal\<rparr>"
  by (simp add: HandleToken_def switch_state_def is_whitespace_or_comment_def)

lemma HandleToken_ExpectBegin_other:
  "state r = kExpectBegin \<Longrightarrow> \<not> is_whitespace_or_comment t \<Longrightarrow> token_enum t \<noteq> TK_begin \<Longrightarrow>
   HandleToken r t = r\<lparr>violations := insert (make_violation r t) (violations r),
                        condition_expr_level := 0, state := kNormal\<rparr>"
  by (simp add: HandleToken_def switch_state_def)


subsection \<open>When a violation is raised\<close>

lemma snd_switch_state:
  "snd (switch_state r tok) \<longleftrightarrow>
     (state r = kInAlways \<and>
        token_enum tok \<notin> {Punct CHR ''@'', Punct CHR ''*'', TK_begin, Punct CHR ''(''}
      \<or> state r = kInElse \<and> token_enum tok \<notin> {TK_if, TK_begin}
      \<or> state r = kExpectBegin \<and> token_enum tok \<noteq> TK_begin)"
  by (cases "state r") (simp_all add: switch_state_def Let_def if_distrib [of snd])

lemma raises_violation_iff:
  "raises_violation r tok \<longleftrightarrow>
     \<not> is_whitespace_or_comment tok \<and>
     (state r = kInAlways \<and>
        token_enum tok \<notin> {Punct CHR ''@'', Punct CHR ''*'', TK_begin, Punct CHR ''(''}
      \<or> state r = kInElse \<and> token_enum tok \<notin> {TK_if, TK_begin}
      \<or> state r = kExpectBegin \<and> token_enum tok \<noteq> TK_begin)"
  by (simp only: raises_violation_def snd_switch_state)

lemma HandleToken_raises:
  assumes "raises_violation r t"
  shows "HandleToken r t = r\<lparr>violations := insert (make_violation r t) (violations r),
                             condition_expr_level := 0, state := kNormal\<rparr>"
proof -
  from assms have w: "\<not> is_whitespace_or_comment t"
    and c: "state r = kInAlways \<and>
              token_enum t \<notin> {Punct CHR ''@'', Punct CHR ''*'', TK_begin, Punct CHR ''(''}
            \<or> state r = kInElse \<and> token_enum t \<notin> {TK_if, TK_begin}
            \<or> state r = kExpectBegin \<and> token_enum t \<noteq> TK_begin"
    unfolding raises_violation_iff by blast+
  from c show ?thesis
  proof (elim disjE conjE)
    assume s: "state r = kInAlways"
      and n: "token_enum t \<notin> {Punct CHR ''@'', Punct CHR ''*'', TK_begin, Punct CHR ''(''}"
    show ?thesis by (rule HandleToken_InAlways_other [OF s w n])
  next
    assume s: "state r = kInElse" and n: "token_enum t \<notin> {TK_if, TK_begin}"
    show ?thesis by (rule HandleToken_InElse_other [OF s w n])
  next
    assume s: "state r = kExpectBegin" and n: "token_enum t \<noteq> TK_begin"
    show ?thesis by (rule HandleToken_ExpectBegin_other [OF s w n])
  qed
qed

section \<open>Properties of the rule\<close>

subsection \<open>White space and comments\<close>

text \<open>
  Claim C3. A token classified as space, newline, block comment or end-of-line comment
  leaves the whole rule object as it is, in every state and under every configuration:
  the state, the start token, the condition depth and the violation set are unchanged.
  Consequently feeding a stream gives the same object, and so the same violation set, as
  feeding the stream with all such tokens removed.
\<close>

theorem C3_formatting_transparent:
  "(token_enum t \<in> {TK_SPACE, TK_NEWLINE, TK_COMMENT_BLOCK, TK_EOL_COMMENT}
      \<longrightarrow> HandleToken r t = r)
   \<and> handle_tokens r (filter (\<lambda>t. \<not> is_whitespace_or_comment t) ts) = handle_tokens r ts
   \<and> violations (handle_tokens r (filter (\<lambda>t. \<not> is_whitespace_or_comment t) ts))
       = violations (handle_tokens r ts)"
proof -
  have "token_enum t \<in> {TK_SPACE, TK_NEWLINE, TK_COMMENT_BLOCK, TK_EOL_COMMENT}
          \<longrightarrow> HandleToken r t = r"
    using HandleToken_whitespace [of t r] by (simp add: is_whitespace_or_comment_def)
  then show ?thesis
    by (simp only: handle_tokens_filter simp_thms)
qed

theorem C3_formatting_transparent_witness:
  "token_enum \<lparr>token_enum = TK_EOL_COMMENT, text = ''// c'', left = 6\<rparr>
      \<in> {TK_SPACE, TK_NEWLINE, TK_COMMENT_BLOCK, TK_EOL_COMMENT}
   \<and> HandleToken (fresh_rule\<lparr>state := kInCondition, condition_expr_level := 2\<rparr>)
        \<lparr>token_enum = TK_EOL_COMMENT, text = ''// c'', left = 6\<rparr>
      = fresh_rule\<lparr>state := kInCondition, condition_expr_level := 2\<rparr>"
  using C3_formatting_transparent
    [of "\<lparr>token_enum = TK_EOL_COMMENT, text = ''// c'', left = 6\<rparr>"
        "fresh_rule\<lparr>state := kInCondition, condition_expr_level := 2\<rparr>" "[]"]
  by simp

subsection \<open>The violation policy\<close>

text \<open>
  Claim C4. When a violation fires, the call inserts one record into the violation set: it
  cites the start token (its text and location), and its message is the start token's
  text, the fixed suffix, and the text of the offending token. The depth is then 0 and the
  state \<open>Normal\<close>; nothing else changes, so the start token is still the old one and the
  offending token, even when it is an enabled keyword, opens no construct in that call.
  The record is a new one whenever no earlier violation cites the start token, which is
  the case on every stream of distinct tokens (see the end of the stream, below).
\<close>

theorem C4_violation_policy:
  "raises_violation r tok \<Longrightarrow>
     HandleToken r tok =
       r\<lparr>violations :=
            insert \<lparr>token = start_token r,
                    reason = text (start_token r) @ kMessage
                               @ '' Expected begin, got '' @ text tok\<rparr>
                   (violations r),
         condition_expr_level := 0,
         state := kNormal\<rparr>
     \<and> state (HandleToken r tok) = kNormal
     \<and> condition_expr_level (HandleToken r tok) = 0
     \<and> start_token (HandleToken r tok) = start_token r
     \<and> ((\<forall>v\<in>violations r. token v \<noteq> start_token r)
          \<longrightarrow> \<lparr>token = start_token r,
                reason = text (start_token r) @ kMessage
                           @ '' Expected begin, got '' @ text tok\<rparr> \<notin> violations r)"
proof -
  assume "raises_violation r tok"
  then have "HandleToken r tok =
      r\<lparr>violations := insert (make_violation r tok) (violations r),
        condition_expr_level := 0, state := kNormal\<rparr>"
    by (rule HandleToken_raises)
  then show ?thesis by (auto simp add: make_violation_def)
qed

theorem C4_violation_policy_witness:
  "raises_violation
     (fresh_rule\<lparr>state := kExpectBegin, condition_expr_level := 3,
        start_token := \<lparr>token_enum = TK_initial, text = ''initial'', left = 0\<rparr>\<rparr>)
     \<lparr>token_enum = TK_if, text = ''if'', left = 8\<rparr>
   \<and> HandleToken
       (fresh_rule\<lparr>state := kExpectBegin, condition_expr_level := 3,
          start_token := \<lparr>token_enum = TK_initial, text = ''initial'', left = 0\<rparr>\<rparr>)
       \<lparr>token_enum = TK_if, text = ''if'', left = 8\<rparr>
     = fresh_rule
         \<lparr>start_token := \<lparr>token_enum = TK_initial, text = ''initial'', left = 0\<rparr>,
          violations :=
            {\<lparr>token = \<lparr>token_enum = TK_initial, text = ''initial'', left = 0\<rparr>,
              reason = ''initial block constructs shall explicitly use begin/end. Expected begin, got if''\<rparr>}\<rparr>"
proof -
  have h: "raises_violation
     (fresh_rule\<lparr>state := kExpectBegin, condition_expr_level := 3,
        start_token := \<lparr>token_enum = TK_initial, text = ''initial'', left = 0\<rparr>\<rparr>)
     \<lparr>token_enum = TK_if, text = ''if'', left = 8\<rparr>"
    by (simp add: raises_violation_iff is_whitespace_or_comment_def)
  show ?thesis
    using h C4_violation_policy [OF h, THEN conjunct1]
    by (simp add: fresh_rule_def kMessage_def)
qed

subsection \<open>Parentheses of a condition\<close>

lemma HandleToken_InCondition_depth:
  assumes "state r = kInCondition"
    and "token_enum t = Punct CHR '')'' \<longrightarrow> condition_expr_level r + paren_depth [t] \<noteq> 0"
  shows "HandleToken r t = r\<lparr>condition_expr_level := condition_expr_level r + paren_depth [t]\<rparr>"
proof -
  consider (l) "token_enum t = Punct CHR ''(''" | (r) "token_enum t = Punct CHR '')''"
    | (o) "token_enum t \<noteq> Punct CHR ''(''" "token_enum t \<noteq> Punct CHR '')''"
    by blast
  then show ?thesis
  proof cases
    case l
    with assms(1) show ?thesis by (simp add: HandleToken_InCondition_lparen)
  next
    case r
    with assms have "condition_expr_level r - 1 \<noteq> 0" by simp
    with assms(1) r show ?thesis by (simp add: HandleToken_InCondition_rparen_open)
  next
    case o
    with assms(1) show ?thesis by (simp add: HandleToken_InCondition_other)
  qed
qed

lemma handle_tokens_InCondition_open:
  assumes "state r = kInCondition"
    and "\<forall>n<length ts. token_enum (ts ! n) = Punct CHR '')''
           \<longrightarrow> condition_expr_level r + paren_depth (take (Suc n) ts) \<noteq> 0"
  shows "handle_tokens r ts = r\<lparr>condition_expr_level := condition_expr_level r + paren_depth ts\<rparr>"
  using assms
proof (induction ts arbitrary: r)
  case Nil
  then show ?case by (simp add: handle_tokens_Nil)
next
  case (Cons t ts)
  let ?r = "r\<lparr>condition_expr_level := condition_expr_level r + paren_depth [t]\<rparr>"
  from Cons.prems(2) have "token_enum t = Punct CHR '')''
      \<longrightarrow> condition_expr_level r + paren_depth [t] \<noteq> 0"
    by (auto dest: spec [of _ 0])
  with Cons.prems(1) have step: "HandleToken r t = ?r"
    by (rule HandleToken_InCondition_depth)
  have s: "state ?r = kInCondition" using Cons.prems(1) by simp
  have "\<forall>n<length ts. token_enum (ts ! n) = Punct CHR '')''
          \<longrightarrow> condition_expr_level ?r + paren_depth (take (Suc n) ts) \<noteq> 0"
  proof (intro allI impI)
    fix n assume n: "n < length ts" and p: "token_enum (ts ! n) = Punct CHR '')''"
    from n have "Suc n < length (t # ts)" by simp
    with Cons.prems(2) p
    have "condition_expr_level r + paren_depth (take (Suc (Suc n)) (t # ts)) \<noteq> 0"
      by (metis nth_Cons_Suc)
    then show "condition_expr_level ?r + paren_depth (take (Suc n) ts) \<noteq> 0"
      by (simp add: add.assoc)
  qed
  with s have "handle_tokens ?r ts = ?r\<lparr>condition_expr_level := condition_expr_level ?r + paren_depth ts\<rparr>"
    by (rule Cons.IH)
  with step show ?case by (simp add: handle_tokens_Cons add.assoc)
qed

lemma paren_depth_append: "paren_depth (xs @ ys) = paren_depth xs + paren_depth ys"
  by (induction xs) simp_all


lemma balanced_condition_prefix:
  assumes "state r = kInCondition" and "condition_expr_level r = 0"
    and "balanced_condition c" and "n < length c"
  shows "handle_tokens r (take n c) = r\<lparr>condition_expr_level := paren_depth (take n c)\<rparr>"
proof -
  have "\<forall>k<length (take n c). token_enum (take n c ! k) = Punct CHR '')''
          \<longrightarrow> condition_expr_level r + paren_depth (take (Suc k) (take n c)) \<noteq> 0"
  proof (intro allI impI)
    fix k assume k: "k < length (take n c)"
    with assms(4) have "Suc k \<le> n" and "Suc k \<in> {1..<length c}" by simp_all
    with assms(3) have "0 < paren_depth (take (Suc k) c)"
      by (simp add: balanced_condition_def)
    moreover from \<open>Suc k \<le> n\<close> have "take (Suc k) (take n c) = take (Suc k) c"
      by (simp add: min_def)
    ultimately show "condition_expr_level r + paren_depth (take (Suc k) (take n c)) \<noteq> 0"
      using assms(2) by simp
  qed
  with assms(1) have "handle_tokens r (take n c)
      = r\<lparr>condition_expr_level := condition_expr_level r + paren_depth (take n c)\<rparr>"
    by (rule handle_tokens_InCondition_open)
  with assms(2) show ?thesis by simp
qed

lemma balanced_condition_last:
  assumes "balanced_condition c"
  shows "token_enum (last c) = Punct CHR '')'' \<and> paren_depth (butlast c) = 1"
proof -
  from assms have ne: "c \<noteq> []" and hd: "token_enum (hd c) = Punct CHR ''(''"
    and tot: "paren_depth c = 0"
    and pre: "\<forall>n \<in> {1..<length c}. 0 < paren_depth (take n c)"
    by (simp_all add: balanced_condition_def)
  have "length c \<noteq> 1"
  proof
    assume "length c = 1"
    then obtain t where "c = [t]" by (cases c) simp_all
    with hd tot show False by simp
  qed
  moreover from ne obtain a cs where "c = a # cs" by (cases c) auto
  ultimately obtain b ds where "c = a # b # ds" by (cases cs) auto
  then have "length c - 1 \<in> {1..<length c}" by simp
  with pre have "0 < paren_depth (take (length c - 1) c)" by blast
  then have b: "0 < paren_depth (butlast c)" by (simp add: butlast_conv_take)
  from ne have "c = butlast c @ [last c]" by simp
  then have "paren_depth c = paren_depth (butlast c) + paren_depth [last c]"
    by (metis paren_depth_append)
  with tot b show ?thesis by (simp split: if_splits)
qed

lemma balanced_condition_closes:
  assumes "state r = kInCondition" and "condition_expr_level r = 0"
    and "balanced_condition c"
  shows "handle_tokens r c = r\<lparr>condition_expr_level := 0, state := kExpectBegin\<rparr>"
proof -
  let ?r = "r\<lparr>condition_expr_level := 1\<rparr>"
  from assms(3) have ne: "c \<noteq> []" by (simp add: balanced_condition_def)
  then have "length c - 1 < length c" by simp
  with assms have "handle_tokens r (take (length c - 1) c)
      = r\<lparr>condition_expr_level := paren_depth (take (length c - 1) c)\<rparr>"
    by (rule balanced_condition_prefix)
  with balanced_condition_last [OF assms(3)] have pre: "handle_tokens r (butlast c) = ?r"
    by (simp add: butlast_conv_take)
  have "HandleToken ?r (last c)
      = ?r\<lparr>condition_expr_level := condition_expr_level ?r - 1, state := kExpectBegin\<rparr>"
    using assms(1) balanced_condition_last [OF assms(3)]
    by (intro HandleToken_InCondition_rparen_close) simp_all
  then have "handle_tokens ?r [last c] = r\<lparr>condition_expr_level := 0, state := kExpectBegin\<rparr>"
    by (simp add: handle_tokens_Cons handle_tokens_Nil)
  moreover from ne have "handle_tokens r c = handle_tokens (handle_tokens r (butlast c)) [last c]"
    by (metis append_butlast_last_id handle_tokens_append)
  ultimately show ?thesis using pre by simp
qed










subsection \<open>One pending construct at a time\<close>

lemma violations_switch_state: "violations (fst (switch_state r t)) = violations r"
  by (cases "state r")
     (simp_all add: switch_state_def Let_def if_distrib [of fst] if_distrib [of violations])

lemma start_token_switch_state:
  "start_token (fst (switch_state r t)) =
     (if state r = kNormal \<and> IsTokenEnabled r t
         \<or> state r = kInElse \<and> token_enum t = TK_if \<and> if_enable r
      then t else start_token r)"
  by (cases "state r")
     (auto simp add: switch_state_def Let_def if_distrib [of fst] if_distrib [of start_token]
        IsTokenEnabled_def split: verilog_tokentype.splits)

lemma HandleToken_no_raise:
  "\<not> raises_violation r t \<Longrightarrow>
   HandleToken r t = (if is_whitespace_or_comment t then r else fst (switch_state r t))"
  by (auto simp add: HandleToken_def raises_violation_def split_beta)

lemma violations_HandleToken:
  "violations (HandleToken r t) =
     (if raises_violation r t then insert (make_violation r t) (violations r)
      else violations r)"
  by (simp add: HandleToken_raises HandleToken_no_raise violations_switch_state)

lemma start_token_HandleToken:
  "start_token (HandleToken r t) =
     (if \<not> is_whitespace_or_comment t \<and>
         (state r = kNormal \<and> IsTokenEnabled r t
          \<or> state r = kInElse \<and> token_enum t = TK_if \<and> if_enable r)
      then t else start_token r)"
proof (cases "raises_violation r t")
  case True
  then show ?thesis by (auto simp add: HandleToken_raises raises_violation_iff)
next
  case False
  then show ?thesis by (simp add: HandleToken_no_raise start_token_switch_state)
qed

text \<open>
  Claim C10. The rule tracks one pending construct at a time. In every state other than
  \<open>Normal\<close>, a token leaves the start token as it is, unless it is an \<^verbatim>\<open>if\<close> read in
  state \<open>InElse\<close>. In state \<open>InCondition\<close> a token that is neither \<^verbatim>\<open>(\<close> nor \<^verbatim>\<open>)\<close>
  leaves the whole object as it is, a monitored keyword included. And as long as no
  \<^verbatim>\<open>)\<close> brings the depth to 0, the rule stays in \<open>InCondition\<close> over the whole stream:
  only the depth changes, so the start token and the violation set stay as they were and
  no keyword of the stream is checked.
\<close>

theorem C10_single_pending:
  "(state r \<noteq> kNormal \<and> \<not> (state r = kInElse \<and> token_enum t = TK_if)
      \<longrightarrow> start_token (HandleToken r t) = start_token r)
   \<and> (state r = kInCondition \<and> token_enum t \<noteq> Punct CHR ''('' \<and> token_enum t \<noteq> Punct CHR '')''
      \<longrightarrow> HandleToken r t = r)
   \<and> (state r = kInCondition
       \<and> (\<forall>n<length ts. token_enum (ts ! n) = Punct CHR '')''
             \<longrightarrow> condition_expr_level r + paren_depth (take (Suc n) ts) \<noteq> 0)
      \<longrightarrow> handle_tokens r ts
            = r\<lparr>condition_expr_level := condition_expr_level r + paren_depth ts\<rparr>
          \<and> state (handle_tokens r ts) = kInCondition
          \<and> start_token (handle_tokens r ts) = start_token r
          \<and> violations (handle_tokens r ts) = violations r)"
proof (intro conjI impI)
  assume "state r \<noteq> kNormal \<and> \<not> (state r = kInElse \<and> token_enum t = TK_if)"
  then show "start_token (HandleToken r t) = start_token r"
    by (auto simp add: start_token_HandleToken)
next
  assume "state r = kInCondition \<and> token_enum t \<noteq> Punct CHR ''(''
            \<and> token_enum t \<noteq> Punct CHR '')''"
  then show "HandleToken r t = r" by (simp add: HandleToken_InCondition_other)
next
  assume a: "state r = kInCondition
       \<and> (\<forall>n<length ts. token_enum (ts ! n) = Punct CHR '')''
             \<longrightarrow> condition_expr_level r + paren_depth (take (Suc n) ts) \<noteq> 0)"
  then have s: "state r = kInCondition" by blast
  from a show e: "handle_tokens r ts
      = r\<lparr>condition_expr_level := condition_expr_level r + paren_depth ts\<rparr>"
    by (intro handle_tokens_InCondition_open) blast+
  from s show "state (handle_tokens r ts) = kInCondition" by (simp add: e)
  show "start_token (handle_tokens r ts) = start_token r" by (simp add: e)
  show "violations (handle_tokens r ts) = violations r" by (simp add: e)
qed

theorem C10_single_pending_witness:
  "handle_tokens
     (fresh_rule\<lparr>start_token := \<lparr>token_enum = TK_if, text = ''if'', left = 0\<rparr>,
                   state := kInCondition\<rparr>)
     tokens_unclosed
   = fresh_rule\<lparr>start_token := \<lparr>token_enum = TK_if, text = ''if'', left = 0\<rparr>,
                 state := kInCondition, condition_expr_level := 1\<rparr>
   \<and> \<lparr>token_enum = TK_for, text = ''for'', left = 6\<rparr> \<in> set tokens_unclosed
   \<and> IsTokenEnabled fresh_rule \<lparr>token_enum = TK_for, text = ''for'', left = 6\<rparr>"
proof -
  let ?r = "fresh_rule\<lparr>start_token := \<lparr>token_enum = TK_if, text = ''if'', left = 0\<rparr>,
                        state := kInCondition\<rparr>"
  have h: "state ?r = kInCondition
       \<and> (\<forall>n<length tokens_unclosed. token_enum (tokens_unclosed ! n) = Punct CHR '')''
             \<longrightarrow> condition_expr_level ?r + paren_depth (take (Suc n) tokens_unclosed) \<noteq> 0)"
    by (simp add: tokens_unclosed_def fresh_rule_def All_less_Suc)
  have d: "paren_depth tokens_unclosed = 1" by (simp add: tokens_unclosed_def)
  from C10_single_pending [of ?r "\<lparr>token_enum = TK_for, text = ''for'', left = 6\<rparr>" tokens_unclosed] h
  have "handle_tokens ?r tokens_unclosed
      = ?r\<lparr>condition_expr_level := condition_expr_level ?r + paren_depth tokens_unclosed\<rparr>"
    by blast
  then show ?thesis
    by (simp add: d) (simp add: fresh_rule_def tokens_unclosed_def IsTokenEnabled_def)
qed

subsection \<open>The if statement\<close>

lemma IsTokenEnabled_same_config:
  "same_config r1 r2 \<Longrightarrow> IsTokenEnabled r1 t = IsTokenEnabled r2 t"
  by (simp add: same_config_def IsTokenEnabled_def split: verilog_tokentype.splits)

lemma IsTokenEnabled_update:
  "IsTokenEnabled (r\<lparr>state := s\<rparr>) t = IsTokenEnabled r t"
  "IsTokenEnabled (r\<lparr>condition_expr_level := l\<rparr>) t = IsTokenEnabled r t"
  "IsTokenEnabled (r\<lparr>start_token := k\<rparr>) t = IsTokenEnabled r t"
  "IsTokenEnabled (r\<lparr>violations := v\<rparr>) t = IsTokenEnabled r t"
  by (rule IsTokenEnabled_same_config, simp add: same_config_def)+

lemma HandleToken_Normal_disabled_list:
  "state r = kNormal \<Longrightarrow> \<forall>t\<in>set ts. \<not> IsTokenEnabled r t \<Longrightarrow> handle_tokens r ts = r"
  by (induction ts)
     (simp_all add: handle_tokens_Nil handle_tokens_Cons HandleToken_Normal_disabled)

lemma handle_tokens_condition_begin:
  assumes "state r = kInCondition" and "condition_expr_level r = 0"
    and "balanced_condition c" and "token_enum b = TK_begin"
    and "\<forall>t\<in>set rest. \<not> IsTokenEnabled r t"
  shows "handle_tokens r (c @ [b] @ rest) = r\<lparr>condition_expr_level := 0, state := kNormal\<rparr>"
proof -
  let ?r2 = "r\<lparr>condition_expr_level := 0, state := kExpectBegin\<rparr>"
  let ?r3 = "r\<lparr>condition_expr_level := 0, state := kNormal\<rparr>"
  from assms(1-3) have "handle_tokens r c = ?r2" by (rule balanced_condition_closes)
  moreover have "HandleToken ?r2 b = ?r2\<lparr>state := kNormal\<rparr>"
    using assms(4) by (intro HandleToken_ExpectBegin_begin) simp_all
  moreover have "handle_tokens ?r3 rest = ?r3"
    using assms(5) by (intro HandleToken_Normal_disabled_list) (simp_all add: IsTokenEnabled_update)
  ultimately show ?thesis
    by (simp add: handle_tokens_append handle_tokens_Cons handle_tokens_Nil)
qed

lemma handle_tokens_condition_no_begin:
  assumes "state r = kInCondition" and "condition_expr_level r = 0"
    and "balanced_condition c"
    and "\<not> is_whitespace_or_comment y" and "token_enum y \<noteq> TK_begin"
    and "\<forall>t\<in>set rest. \<not> IsTokenEnabled r t"
  shows "handle_tokens r (c @ [y] @ rest)
    = r\<lparr>violations := insert (make_violation r y) (violations r),
        condition_expr_level := 0, state := kNormal\<rparr>"
proof -
  let ?r2 = "r\<lparr>condition_expr_level := 0, state := kExpectBegin\<rparr>"
  let ?r3 = "r\<lparr>violations := insert (make_violation r y) (violations r),
        condition_expr_level := 0, state := kNormal\<rparr>"
  from assms(1-3) have "handle_tokens r c = ?r2" by (rule balanced_condition_closes)
  moreover have "HandleToken ?r2 y
      = ?r2\<lparr>violations := insert (make_violation ?r2 y) (violations ?r2),
           condition_expr_level := 0, state := kNormal\<rparr>"
    using assms(4,5) by (intro HandleToken_ExpectBegin_other) simp_all
  moreover have "handle_tokens ?r3 rest = ?r3"
    using assms(6) by (intro HandleToken_Normal_disabled_list) (simp_all add: IsTokenEnabled_update)
  ultimately show ?thesis
    by (simp add: handle_tokens_append handle_tokens_Cons handle_tokens_Nil make_violation_def)
qed

text \<open>
  Claim C1. With the \<^verbatim>\<open>if\<close> check enabled, starting in state \<open>Normal\<close> with no
  violation: a stream that, without its white space and comments, is \<^verbatim>\<open>if\<close>, a balanced
  condition such as \<^verbatim>\<open>(x)\<close>, \<^verbatim>\<open>begin\<close>, and then tokens that are not enabled keywords,
  gives no violation. The same stream with a token other than \<^verbatim>\<open>begin\<close> after the
  condition, such as \<^verbatim>\<open>y\<close>, gives exactly one violation: it cites the \<^verbatim>\<open>if\<close> token
  and its message ends with the text of that offending token.
\<close>

theorem C1_if_begin:
  "state r = kNormal \<Longrightarrow> if_enable r \<Longrightarrow> violations r = {} \<Longrightarrow>
   token_enum tif = TK_if \<Longrightarrow> balanced_condition c \<Longrightarrow>
   \<forall>t\<in>set rest. \<not> IsTokenEnabled r t \<Longrightarrow>
     (token_enum b = TK_begin
        \<and> filter (\<lambda>t. \<not> is_whitespace_or_comment t) ts = [tif] @ c @ [b] @ rest
      \<longrightarrow> violations (handle_tokens r ts) = {})
   \<and> (\<not> is_whitespace_or_comment y \<and> token_enum y \<noteq> TK_begin
        \<and> filter (\<lambda>t. \<not> is_whitespace_or_comment t) ts = [tif] @ c @ [y] @ rest
      \<longrightarrow> violations (handle_tokens r ts)
            = {\<lparr>token = tif,
                reason = text tif @ kMessage @ '' Expected begin, got '' @ text y\<rparr>})"
proof -
  assume s: "state r = kNormal" and e: "if_enable r" and v: "violations r = {}"
    and k: "token_enum tif = TK_if" and c: "balanced_condition c"
    and rest: "\<forall>t\<in>set rest. \<not> IsTokenEnabled r t"
  let ?r1 = "r\<lparr>condition_expr_level := 0, start_token := tif, state := kInCondition\<rparr>"
  have "IsTokenEnabled r tif" using e k by (simp add: IsTokenEnabled_def)
  with s k have 1: "HandleToken r tif = ?r1"
    by (intro HandleToken_Normal_condition) simp_all
  have s1: "state ?r1 = kInCondition" and l1: "condition_expr_level ?r1 = 0" by simp_all
  have rest1: "\<forall>t\<in>set rest. \<not> IsTokenEnabled ?r1 t"
    using rest by (simp add: IsTokenEnabled_update)
  have a: "violations (handle_tokens r ts) = {}"
    if b: "token_enum b = TK_begin"
      and f: "filter (\<lambda>t. \<not> is_whitespace_or_comment t) ts = [tif] @ c @ [b] @ rest"
  proof -
    have "handle_tokens r ts = handle_tokens r ([tif] @ c @ [b] @ rest)"
      using handle_tokens_filter [of r ts] f by simp
    also have "\<dots> = handle_tokens ?r1 (c @ [b] @ rest)"
      using 1 by (simp add: handle_tokens_Cons)
    also have "\<dots> = ?r1\<lparr>condition_expr_level := 0, state := kNormal\<rparr>"
      using s1 l1 c b rest1 by (rule handle_tokens_condition_begin)
    finally show ?thesis using v by simp
  qed
  have b: "violations (handle_tokens r ts)
      = {\<lparr>token = tif, reason = text tif @ kMessage @ '' Expected begin, got '' @ text y\<rparr>}"
    if w: "\<not> is_whitespace_or_comment y" and y: "token_enum y \<noteq> TK_begin"
      and f: "filter (\<lambda>t. \<not> is_whitespace_or_comment t) ts = [tif] @ c @ [y] @ rest"
  proof -
    have "handle_tokens r ts = handle_tokens r ([tif] @ c @ [y] @ rest)"
      using handle_tokens_filter [of r ts] f by simp
    also have "\<dots> = handle_tokens ?r1 (c @ [y] @ rest)"
      using 1 by (simp add: handle_tokens_Cons)
    also have "\<dots> = ?r1\<lparr>violations := insert (make_violation ?r1 y) (violations ?r1),
        condition_expr_level := 0, state := kNormal\<rparr>"
      using s1 l1 c w y rest1 by (rule handle_tokens_condition_no_begin)
    finally show ?thesis using v by (simp add: make_violation_def)
  qed
  from a b show ?thesis by blast
qed

lemma balanced_condition_x:
  "balanced_condition
     [\<lparr>token_enum = Punct CHR ''('', text = ''('', left = 3\<rparr>,
      \<lparr>token_enum = TK_other 1, text = ''x'', left = 4\<rparr>,
      \<lparr>token_enum = Punct CHR '')'', text = '')'', left = 5\<rparr>]"
  by (simp add: balanced_condition_def atLeastLessThan_upt upt_conv_Cons)


theorem C1_if_begin_witness:
  "violations (handle_tokens fresh_rule tokens_if_begin) = {}
   \<and> violations (handle_tokens fresh_rule tokens_if_no_begin)
       = {\<lparr>token = \<lparr>token_enum = TK_if, text = ''if'', left = 0\<rparr>,
           reason = ''if block constructs shall explicitly use begin/end. Expected begin, got y''\<rparr>}"
proof -
  let ?if = "\<lparr>token_enum = TK_if, text = ''if'', left = 0\<rparr>"
  let ?c = "[\<lparr>token_enum = Punct CHR ''('', text = ''('', left = 3\<rparr>,
             \<lparr>token_enum = TK_other 1, text = ''x'', left = 4\<rparr>,
             \<lparr>token_enum = Punct CHR '')'', text = '')'', left = 5\<rparr>]"
  let ?begin = "\<lparr>token_enum = TK_begin, text = ''begin'', left = 7\<rparr>"
  let ?body = "[\<lparr>token_enum = TK_other 1, text = ''y'', left = 13\<rparr>,
                \<lparr>token_enum = Punct CHR ''='', text = ''='', left = 15\<rparr>,
                \<lparr>token_enum = TK_other 2, text = ''1'', left = 17\<rparr>,
                \<lparr>token_enum = Punct CHR '';'', text = '';'', left = 18\<rparr>,
                \<lparr>token_enum = TK_other 6, text = ''end'', left = 20\<rparr>]"
  let ?y = "\<lparr>token_enum = TK_other 1, text = ''y'', left = 7\<rparr>"
  let ?rest = "[\<lparr>token_enum = Punct CHR ''='', text = ''='', left = 9\<rparr>,
                \<lparr>token_enum = TK_other 2, text = ''1'', left = 11\<rparr>,
                \<lparr>token_enum = Punct CHR '';'', text = '';'', left = 12\<rparr>]"
  have s: "state fresh_rule = kNormal" and e: "if_enable fresh_rule"
    and v: "violations fresh_rule = {}"
    by (simp_all add: fresh_rule_def)
  have k: "token_enum ?if = TK_if" by simp
  have c: "balanced_condition ?c" by (rule balanced_condition_x)
  have body: "\<forall>t\<in>set ?body. \<not> IsTokenEnabled fresh_rule t"
    and rest: "\<forall>t\<in>set ?rest. \<not> IsTokenEnabled fresh_rule t"
    by (simp_all add: IsTokenEnabled_def)
  have a: "token_enum ?begin = TK_begin
      \<and> filter (\<lambda>t. \<not> is_whitespace_or_comment t) tokens_if_begin
          = [?if] @ ?c @ [?begin] @ ?body"
    by (simp add: tokens_if_begin_def is_whitespace_or_comment_def)
  have b: "\<not> is_whitespace_or_comment ?y \<and> token_enum ?y \<noteq> TK_begin
      \<and> filter (\<lambda>t. \<not> is_whitespace_or_comment t) tokens_if_no_begin
          = [?if] @ ?c @ [?y] @ ?rest"
    by (simp add: tokens_if_no_begin_def is_whitespace_or_comment_def)
  note 1 = C1_if_begin [OF s e v k c body, where b = ?begin and ts = tokens_if_begin,
      THEN conjunct1, THEN mp, OF a]
  note 2 = C1_if_begin [OF s e v k c rest, where y = ?y and ts = tokens_if_no_begin,
      THEN conjunct2, THEN mp, OF b]
  from 1 2 show ?thesis by (simp add: kMessage_def)
qed

subsection \<open>The always statement\<close>

lemma handle_tokens_InAlways_marks:
  "state r = kInAlways \<Longrightarrow>
   \<forall>m\<in>set marks. token_enum m = Punct CHR ''@'' \<or> token_enum m = Punct CHR ''*'' \<Longrightarrow>
   handle_tokens r marks = r"
  by (induction marks)
     (simp_all add: handle_tokens_Nil handle_tokens_Cons HandleToken_InAlways_skip)

lemma handle_tokens_InAlways_condition:
  assumes "state r = kInAlways" and "balanced_condition c"
  shows "handle_tokens r c
    = handle_tokens (r\<lparr>condition_expr_level := 0, state := kInCondition\<rparr>) c"
proof -
  from assms(2) obtain lp c' where c: "c = lp # c'" and lp: "token_enum lp = Punct CHR ''(''"
    by (cases c) (simp_all add: balanced_condition_def)
  let ?r2 = "r\<lparr>condition_expr_level := 0, state := kInCondition\<rparr>"
  have A: "HandleToken r lp = r\<lparr>condition_expr_level := 1, state := kInCondition\<rparr>"
    using assms(1) lp by (rule HandleToken_InAlways_lparen)
  have B: "HandleToken ?r2 lp = ?r2\<lparr>condition_expr_level := condition_expr_level ?r2 + 1\<rparr>"
    using lp by (intro HandleToken_InCondition_lparen) simp_all
  have C: "?r2\<lparr>condition_expr_level := condition_expr_level ?r2 + 1\<rparr>
      = r\<lparr>condition_expr_level := 1, state := kInCondition\<rparr>"
    by (cases r) simp
  show ?thesis by (simp only: c handle_tokens_Cons A B C)
qed

text \<open>
  Claim C5. In state \<open>InAlways\<close>, \<^verbatim>\<open>@\<close> and \<^verbatim>\<open>*\<close> leave the object as it is,
  \<^verbatim>\<open>begin\<close> gives \<open>Normal\<close> without a violation, \<^verbatim>\<open>(\<close> gives \<open>InCondition\<close> with
  depth 1, and every other token that reaches the state switch (every token that is not
  white space or a comment) raises a violation. Hence, with the \<^verbatim>\<open>always\<close> check
  enabled, \<^verbatim>\<open>always\<close>, any \<^verbatim>\<open>@\<close> and \<^verbatim>\<open>*\<close>, a balanced condition such as
  \<^verbatim>\<open>(posedge clk)\<close> and \<^verbatim>\<open>begin\<close> give no violation, and the same with another token
  in the place of \<^verbatim>\<open>begin\<close>, such as \<^verbatim>\<open>y\<close>, gives exactly one violation, which cites
  the \<^verbatim>\<open>always\<close> token.
\<close>

theorem C5_always:
  "(state r = kInAlways \<and> (token_enum t = Punct CHR ''@'' \<or> token_enum t = Punct CHR ''*'')
      \<longrightarrow> HandleToken r t = r)
   \<and> (state r = kInAlways \<and> token_enum t = TK_begin
      \<longrightarrow> HandleToken r t = r\<lparr>state := kNormal\<rparr>)
   \<and> (state r = kInAlways \<and> token_enum t = Punct CHR ''(''
      \<longrightarrow> HandleToken r t = r\<lparr>condition_expr_level := 1, state := kInCondition\<rparr>)
   \<and> (state r = kInAlways \<and> \<not> is_whitespace_or_comment t
       \<and> token_enum t \<notin> {Punct CHR ''@'', Punct CHR ''*'', TK_begin, Punct CHR ''(''}
      \<longrightarrow> raises_violation r t
          \<and> HandleToken r t
              = r\<lparr>violations := insert (make_violation r t) (violations r),
                  condition_expr_level := 0, state := kNormal\<rparr>)
   \<and> (state r = kNormal \<and> always_enable r \<and> violations r = {}
       \<and> token_enum al = TK_always
       \<and> (\<forall>m\<in>set marks. token_enum m = Punct CHR ''@'' \<or> token_enum m = Punct CHR ''*'')
       \<and> balanced_condition c
       \<and> (\<forall>t\<in>set rest. \<not> IsTokenEnabled r t)
      \<longrightarrow> (token_enum b = TK_begin
            \<and> filter (\<lambda>t. \<not> is_whitespace_or_comment t) ts = [al] @ marks @ c @ [b] @ rest
           \<longrightarrow> violations (handle_tokens r ts) = {})
        \<and> (\<not> is_whitespace_or_comment y \<and> token_enum y \<noteq> TK_begin
            \<and> filter (\<lambda>t. \<not> is_whitespace_or_comment t) ts = [al] @ marks @ c @ [y] @ rest
           \<longrightarrow> violations (handle_tokens r ts)
                 = {\<lparr>token = al,
                     reason = text al @ kMessage @ '' Expected begin, got '' @ text y\<rparr>}))"
proof (intro conjI impI; (elim conjE)?)
  assume "state r = kInAlways"
    and "token_enum t = Punct CHR ''@'' \<or> token_enum t = Punct CHR ''*''"
  then show "HandleToken r t = r" by (rule HandleToken_InAlways_skip)
next
  assume "state r = kInAlways" and "token_enum t = TK_begin"
  then show "HandleToken r t = r\<lparr>state := kNormal\<rparr>" by (rule HandleToken_InAlways_begin)
next
  assume "state r = kInAlways" and "token_enum t = Punct CHR ''(''"
  then show "HandleToken r t = r\<lparr>condition_expr_level := 1, state := kInCondition\<rparr>"
    by (rule HandleToken_InAlways_lparen)
next
  assume "state r = kInAlways" and "\<not> is_whitespace_or_comment t"
    and "token_enum t \<notin> {Punct CHR ''@'', Punct CHR ''*'', TK_begin, Punct CHR ''(''}"
  then show "raises_violation r t" by (simp add: raises_violation_iff)
next
  assume "state r = kInAlways" and "\<not> is_whitespace_or_comment t"
    and "token_enum t \<notin> {Punct CHR ''@'', Punct CHR ''*'', TK_begin, Punct CHR ''(''}"
  then show "HandleToken r t
      = r\<lparr>violations := insert (make_violation r t) (violations r),
          condition_expr_level := 0, state := kNormal\<rparr>"
    by (rule HandleToken_InAlways_other)
next
  assume s: "state r = kNormal" and e: "always_enable r" and v: "violations r = {}"
    and k: "token_enum al = TK_always"
    and m: "\<forall>m\<in>set marks. token_enum m = Punct CHR ''@'' \<or> token_enum m = Punct CHR ''*''"
    and c: "balanced_condition c"
    and rest: "\<forall>t\<in>set rest. \<not> IsTokenEnabled r t"
    and b: "token_enum b = TK_begin"
    and f: "filter (\<lambda>t. \<not> is_whitespace_or_comment t) ts = [al] @ marks @ c @ [b] @ rest"
  let ?r1 = "r\<lparr>condition_expr_level := 0, start_token := al, state := kInAlways\<rparr>"
  let ?r2 = "?r1\<lparr>condition_expr_level := 0, state := kInCondition\<rparr>"
  have "IsTokenEnabled r al" using e k by (simp add: IsTokenEnabled_def)
  with s have 1: "HandleToken r al = ?r1" using k by (rule HandleToken_Normal_always)
  have 2: "handle_tokens ?r1 marks = ?r1"
    using m by (intro handle_tokens_InAlways_marks) simp_all
  have rest2: "\<forall>t\<in>set rest. \<not> IsTokenEnabled ?r2 t"
    using rest by (simp add: IsTokenEnabled_update)
  have "handle_tokens r ts = handle_tokens r ([al] @ marks @ c @ [b] @ rest)"
    using handle_tokens_filter [of r ts] f by simp
  also have "\<dots> = handle_tokens (handle_tokens ?r1 c) ([b] @ rest)"
    using 1 2 by (simp add: handle_tokens_Cons handle_tokens_append)
  also have "\<dots> = handle_tokens (handle_tokens ?r2 c) ([b] @ rest)"
    using c by (subst handle_tokens_InAlways_condition) simp_all
  also have "\<dots> = handle_tokens ?r2 (c @ [b] @ rest)"
    by (simp add: handle_tokens_append)
  also have "\<dots> = ?r2\<lparr>condition_expr_level := 0, state := kNormal\<rparr>"
    using c b rest2 by (intro handle_tokens_condition_begin) simp_all
  finally show "violations (handle_tokens r ts) = {}" using v by simp
next
  assume s: "state r = kNormal" and e: "always_enable r" and v: "violations r = {}"
    and k: "token_enum al = TK_always"
    and m: "\<forall>m\<in>set marks. token_enum m = Punct CHR ''@'' \<or> token_enum m = Punct CHR ''*''"
    and c: "balanced_condition c"
    and rest: "\<forall>t\<in>set rest. \<not> IsTokenEnabled r t"
    and w: "\<not> is_whitespace_or_comment y" and y: "token_enum y \<noteq> TK_begin"
    and f: "filter (\<lambda>t. \<not> is_whitespace_or_comment t) ts = [al] @ marks @ c @ [y] @ rest"
  let ?r1 = "r\<lparr>condition_expr_level := 0, start_token := al, state := kInAlways\<rparr>"
  let ?r2 = "?r1\<lparr>condition_expr_level := 0, state := kInCondition\<rparr>"
  have "IsTokenEnabled r al" using e k by (simp add: IsTokenEnabled_def)
  with s have 1: "HandleToken r al = ?r1" using k by (rule HandleToken_Normal_always)
  have 2: "handle_tokens ?r1 marks = ?r1"
    using m by (intro handle_tokens_InAlways_marks) simp_all
  have rest2: "\<forall>t\<in>set rest. \<not> IsTokenEnabled ?r2 t"
    using rest by (simp add: IsTokenEnabled_update)
  have "handle_tokens r ts = handle_tokens r ([al] @ marks @ c @ [y] @ rest)"
    using handle_tokens_filter [of r ts] f by simp
  also have "\<dots> = handle_tokens (handle_tokens ?r1 c) ([y] @ rest)"
    using 1 2 by (simp add: handle_tokens_Cons handle_tokens_append)
  also have "\<dots> = handle_tokens (handle_tokens ?r2 c) ([y] @ rest)"
    using c by (subst handle_tokens_InAlways_condition) simp_all
  also have "\<dots> = handle_tokens ?r2 (c @ [y] @ rest)"
    by (simp add: handle_tokens_append)
  also have "\<dots> = ?r2\<lparr>violations := insert (make_violation ?r2 y) (violations ?r2),
        condition_expr_level := 0, state := kNormal\<rparr>"
    using c w y rest2 by (intro handle_tokens_condition_no_begin) simp_all
  finally show "violations (handle_tokens r ts)
      = {\<lparr>token = al, reason = text al @ kMessage @ '' Expected begin, got '' @ text y\<rparr>}"
    using v by (simp add: make_violation_def)
qed


lemma balanced_condition_posedge_clk:
  "balanced_condition
     [\<lparr>token_enum = Punct CHR ''('', text = ''('', left = 8\<rparr>,
      \<lparr>token_enum = TK_other 5, text = ''posedge'', left = 9\<rparr>,
      \<lparr>token_enum = TK_other 1, text = ''clk'', left = 17\<rparr>,
      \<lparr>token_enum = Punct CHR '')'', text = '')'', left = 20\<rparr>]"
  by (simp add: balanced_condition_def atLeastLessThan_upt upt_conv_Cons)

theorem C5_always_witness:
  "violations (handle_tokens fresh_rule tokens_always_begin) = {}
   \<and> violations (handle_tokens fresh_rule tokens_always_no_begin)
       = {\<lparr>token = \<lparr>token_enum = TK_always, text = ''always'', left = 0\<rparr>,
           reason = ''always block constructs shall explicitly use begin/end. Expected begin, got y''\<rparr>}"
proof -
  let ?al = "\<lparr>token_enum = TK_always, text = ''always'', left = 0\<rparr>"
  let ?marks = "[\<lparr>token_enum = Punct CHR ''@'', text = ''@'', left = 7\<rparr>]"
  let ?c = "[\<lparr>token_enum = Punct CHR ''('', text = ''('', left = 8\<rparr>,
             \<lparr>token_enum = TK_other 5, text = ''posedge'', left = 9\<rparr>,
             \<lparr>token_enum = TK_other 1, text = ''clk'', left = 17\<rparr>,
             \<lparr>token_enum = Punct CHR '')'', text = '')'', left = 20\<rparr>]"
  let ?begin = "\<lparr>token_enum = TK_begin, text = ''begin'', left = 22\<rparr>"
  let ?y = "\<lparr>token_enum = TK_other 1, text = ''y'', left = 22\<rparr>"
  let ?rest = "[\<lparr>token_enum = Punct CHR ''='', text = ''='', left = 24\<rparr>,
                \<lparr>token_enum = TK_other 2, text = ''1'', left = 26\<rparr>,
                \<lparr>token_enum = Punct CHR '';'', text = '';'', left = 27\<rparr>]"
  have h1: "state fresh_rule = kNormal \<and> always_enable fresh_rule \<and> violations fresh_rule = {}
       \<and> token_enum ?al = TK_always
       \<and> (\<forall>m\<in>set ?marks. token_enum m = Punct CHR ''@'' \<or> token_enum m = Punct CHR ''*'')
       \<and> balanced_condition ?c
       \<and> (\<forall>t\<in>set []. \<not> IsTokenEnabled fresh_rule t)"
    using balanced_condition_posedge_clk by (simp add: fresh_rule_def)
  have h2: "state fresh_rule = kNormal \<and> always_enable fresh_rule \<and> violations fresh_rule = {}
       \<and> token_enum ?al = TK_always
       \<and> (\<forall>m\<in>set ?marks. token_enum m = Punct CHR ''@'' \<or> token_enum m = Punct CHR ''*'')
       \<and> balanced_condition ?c
       \<and> (\<forall>t\<in>set ?rest. \<not> IsTokenEnabled fresh_rule t)"
    using balanced_condition_posedge_clk by (simp add: fresh_rule_def IsTokenEnabled_def)
  have a: "token_enum ?begin = TK_begin
      \<and> filter (\<lambda>t. \<not> is_whitespace_or_comment t) tokens_always_begin
          = [?al] @ ?marks @ ?c @ [?begin] @ []"
    by (simp add: tokens_always_begin_def is_whitespace_or_comment_def)
  have b: "\<not> is_whitespace_or_comment ?y \<and> token_enum ?y \<noteq> TK_begin
      \<and> filter (\<lambda>t. \<not> is_whitespace_or_comment t) tokens_always_no_begin
          = [?al] @ ?marks @ ?c @ [?y] @ ?rest"
    by (simp add: tokens_always_no_begin_def is_whitespace_or_comment_def)
  note 1 = C5_always [where r = fresh_rule and b = ?begin and ts = tokens_always_begin,
      THEN conjunct2, THEN conjunct2, THEN conjunct2, THEN conjunct2, THEN mp, OF h1,
      THEN conjunct1, THEN mp, OF a]
  note 2 = C5_always [where r = fresh_rule and y = ?y and ts = tokens_always_no_begin,
      THEN conjunct2, THEN conjunct2, THEN conjunct2, THEN conjunct2, THEN mp, OF h2,
      THEN conjunct2, THEN mp, OF b]
  from 1 2 show ?thesis by (simp add: kMessage_def)
qed

subsection \<open>Disabled checks\<close>

lemma same_config_HandleToken: "same_config (HandleToken r t) r"
  by (cases "state r")
     (simp_all add: same_config_def HandleToken_def switch_state_def Let_def split_beta
        if_distrib [of fst] if_distrib [of snd])


lemma HandleToken_Normal_no_trigger:
  "state r = kNormal \<Longrightarrow> is_whitespace_or_comment t \<or> \<not> IsTokenEnabled r t \<Longrightarrow>
   HandleToken r t = r"
  by (auto simp add: HandleToken_whitespace HandleToken_Normal_disabled)





subsection \<open>The end of the stream\<close>

lemma pending_uncited_step:
  assumes "pending_uncited S r" and "t \<notin> S"
  shows "pending_uncited (insert t S) (HandleToken r t)"
proof (cases "raises_violation r t")
  case True
  then have "state r \<noteq> kNormal" by (auto simp add: raises_violation_iff)
  with assms(1) True show ?thesis
    by (simp add: pending_uncited_def HandleToken_raises make_violation_def)
next
  case False
  let ?trig = "\<not> is_whitespace_or_comment t \<and>
         (state r = kNormal \<and> IsTokenEnabled r t
          \<or> state r = kInElse \<and> token_enum t = TK_if \<and> if_enable r)"
  from False have v: "violations (HandleToken r t) = violations r"
    by (simp add: violations_HandleToken)
  show ?thesis
  proof (cases ?trig)
    case True
    then have "start_token (HandleToken r t) = t"
      by (subst start_token_HandleToken) (rule if_P)
    with assms v show ?thesis by (auto simp add: pending_uncited_def)
  next
    case nt: False
    then have st: "start_token (HandleToken r t) = start_token r"
      by (subst start_token_HandleToken) (rule if_not_P)
    have "state r \<noteq> kNormal" if n: "state (HandleToken r t) \<noteq> kNormal"
    proof
      assume s: "state r = kNormal"
      with nt have "HandleToken r t = r" by (intro HandleToken_Normal_no_trigger) auto
      with n s show False by simp
    qed
    with assms(1) v st show ?thesis by (auto simp add: pending_uncited_def)
  qed
qed

lemma pending_uncited_handle_tokens:
  assumes "pending_uncited S r" and "distinct ts" and "set ts \<inter> S = {}"
  shows "pending_uncited (S \<union> set ts) (handle_tokens r ts)"
  using assms
proof (induction ts arbitrary: S r)
  case Nil
  then show ?case by (simp add: handle_tokens_Nil)
next
  case (Cons t ts)
  from Cons.prems have "t \<notin> S" by simp
  with Cons.prems(1) have "pending_uncited (insert t S) (HandleToken r t)"
    by (rule pending_uncited_step)
  moreover from Cons.prems have "distinct ts" and "set ts \<inter> insert t S = {}" by auto
  ultimately have "pending_uncited (insert t S \<union> set ts) (handle_tokens (HandleToken r t) ts)"
    by (rule Cons.IH)
  then show ?case by (simp add: handle_tokens_Cons)
qed

text \<open>
  Claim C9. \<^verbatim>\<open>Report\<close> returns the violation set as \<^verbatim>\<open>HandleToken\<close> left it, with the
  descriptor: there is no end-of-stream step. When a stream of pairwise distinct tokens
  (the tokens of a source text differ at least in their location), read from state
  \<open>Normal\<close> with no violation, ends in a state other than \<open>Normal\<close>, no reported
  violation cites the pending start token. In particular, with the \<^verbatim>\<open>if\<close> check enabled,
  the streams \<^verbatim>\<open>if (x\<close> and \<^verbatim>\<open>if (x)\<close> end in \<open>InCondition\<close> and \<open>ExpectBegin\<close> and
  report no violation.
\<close>

theorem C9_no_end_of_stream_flush:
  "Report r = (violations r, GetDescriptor)
   \<and> (state r = kNormal \<and> violations r = {} \<and> distinct ts
       \<and> state (handle_tokens r ts) \<noteq> kNormal
      \<longrightarrow> (\<forall>v\<in>fst (Report (handle_tokens r ts)).
             token v \<noteq> start_token (handle_tokens r ts)))
   \<and> (state r = kNormal \<and> if_enable r \<and> violations r = {}
       \<and> token_enum tif = TK_if \<and> token_enum lp = Punct CHR ''(''
       \<and> token_enum x \<noteq> Punct CHR ''('' \<and> token_enum x \<noteq> Punct CHR '')''
       \<and> token_enum rp = Punct CHR '')''
      \<longrightarrow> (filter (\<lambda>t. \<not> is_whitespace_or_comment t) ts = [tif, lp, x]
           \<longrightarrow> state (handle_tokens r ts) = kInCondition
               \<and> fst (Report (handle_tokens r ts)) = {})
        \<and> (filter (\<lambda>t. \<not> is_whitespace_or_comment t) ts = [tif, lp, x, rp]
           \<longrightarrow> state (handle_tokens r ts) = kExpectBegin
               \<and> fst (Report (handle_tokens r ts)) = {}))"
proof (intro conjI impI; (elim conjE)?)
  show "Report r = (violations r, GetDescriptor)" by (simp add: Report_def)
next
  assume s: "state r = kNormal" and v: "violations r = {}" and d: "distinct ts"
    and n: "state (handle_tokens r ts) \<noteq> kNormal"
  from s v have "pending_uncited {} r" by (simp add: pending_uncited_def)
  from pending_uncited_handle_tokens [OF this d] n
  show "\<forall>v\<in>fst (Report (handle_tokens r ts)). token v \<noteq> start_token (handle_tokens r ts)"
    by (simp add: pending_uncited_def Report_def)
next
  assume s: "state r = kNormal" and e: "if_enable r" and v: "violations r = {}"
    and k: "token_enum tif = TK_if" and lp: "token_enum lp = Punct CHR ''(''"
    and x: "token_enum x \<noteq> Punct CHR ''(''" "token_enum x \<noteq> Punct CHR '')''"
    and f: "filter (\<lambda>t. \<not> is_whitespace_or_comment t) ts = [tif, lp, x]"
  let ?r1 = "r\<lparr>condition_expr_level := 0, start_token := tif, state := kInCondition\<rparr>"
  let ?r2 = "?r1\<lparr>condition_expr_level := condition_expr_level ?r1 + 1\<rparr>"
  have "IsTokenEnabled r tif" using e k by (simp add: IsTokenEnabled_def)
  with s k have 1: "HandleToken r tif = ?r1"
    by (intro HandleToken_Normal_condition) simp_all
  have 2: "HandleToken ?r1 lp = ?r2"
    using lp by (intro HandleToken_InCondition_lparen) simp_all
  have 3: "HandleToken ?r2 x = ?r2"
    using x by (intro HandleToken_InCondition_other) simp_all
  have "handle_tokens r ts = handle_tokens r [tif, lp, x]"
    using handle_tokens_filter [of r ts] f by simp
  also have "\<dots> = ?r2"
    by (simp only: handle_tokens_Cons handle_tokens_Nil 1 2 3)
  finally have 4: "handle_tokens r ts = ?r2" .
  show "state (handle_tokens r ts) = kInCondition" by (simp add: 4)
  show "fst (Report (handle_tokens r ts)) = {}" using v by (simp add: 4 Report_def)
next
  assume s: "state r = kNormal" and e: "if_enable r" and v: "violations r = {}"
    and k: "token_enum tif = TK_if" and lp: "token_enum lp = Punct CHR ''(''"
    and x: "token_enum x \<noteq> Punct CHR ''(''" "token_enum x \<noteq> Punct CHR '')''"
    and rp: "token_enum rp = Punct CHR '')''"
    and f: "filter (\<lambda>t. \<not> is_whitespace_or_comment t) ts = [tif, lp, x, rp]"
  let ?r1 = "r\<lparr>condition_expr_level := 0, start_token := tif, state := kInCondition\<rparr>"
  let ?r2 = "?r1\<lparr>condition_expr_level := condition_expr_level ?r1 + 1\<rparr>"
  let ?r3 = "?r2\<lparr>condition_expr_level := condition_expr_level ?r2 - 1, state := kExpectBegin\<rparr>"
  have "IsTokenEnabled r tif" using e k by (simp add: IsTokenEnabled_def)
  with s k have 1: "HandleToken r tif = ?r1"
    by (intro HandleToken_Normal_condition) simp_all
  have 2: "HandleToken ?r1 lp = ?r2"
    using lp by (intro HandleToken_InCondition_lparen) simp_all
  have 3: "HandleToken ?r2 x = ?r2"
    using x by (intro HandleToken_InCondition_other) simp_all
  have 4: "HandleToken ?r2 rp = ?r3"
    using rp by (intro HandleToken_InCondition_rparen_close) simp_all
  have "handle_tokens r ts = handle_tokens r [tif, lp, x, rp]"
    using handle_tokens_filter [of r ts] f by simp
  also have "\<dots> = ?r3"
    by (simp only: handle_tokens_Cons handle_tokens_Nil 1 2 3 4)
  finally have 5: "handle_tokens r ts = ?r3" .
  show "state (handle_tokens r ts) = kExpectBegin" by (simp add: 5)
  show "fst (Report (handle_tokens r ts)) = {}" using v by (simp add: 5 Report_def)
qed


theorem C9_no_end_of_stream_flush_witness:
  "state (handle_tokens fresh_rule tokens_if_open) = kInCondition
   \<and> fst (Report (handle_tokens fresh_rule tokens_if_open)) = {}
   \<and> state (handle_tokens fresh_rule tokens_if_closed) = kExpectBegin
   \<and> fst (Report (handle_tokens fresh_rule tokens_if_closed)) = {}"
proof -
  let ?if = "\<lparr>token_enum = TK_if, text = ''if'', left = 0\<rparr>"
  let ?lp = "\<lparr>token_enum = Punct CHR ''('', text = ''('', left = 3\<rparr>"
  let ?x = "\<lparr>token_enum = TK_other 1, text = ''x'', left = 4\<rparr>"
  let ?rp = "\<lparr>token_enum = Punct CHR '')'', text = '')'', left = 5\<rparr>"
  have h: "state fresh_rule = kNormal \<and> if_enable fresh_rule \<and> violations fresh_rule = {}
       \<and> token_enum ?if = TK_if \<and> token_enum ?lp = Punct CHR ''(''
       \<and> token_enum ?x \<noteq> Punct CHR ''('' \<and> token_enum ?x \<noteq> Punct CHR '')''
       \<and> token_enum ?rp = Punct CHR '')''"
    by (simp add: fresh_rule_def)
  have a: "filter (\<lambda>t. \<not> is_whitespace_or_comment t) tokens_if_open = [?if, ?lp, ?x]"
    by (simp add: tokens_if_open_def is_whitespace_or_comment_def)
  have b: "filter (\<lambda>t. \<not> is_whitespace_or_comment t) tokens_if_closed = [?if, ?lp, ?x, ?rp]"
    by (simp add: tokens_if_closed_def is_whitespace_or_comment_def)
  note 1 = C9_no_end_of_stream_flush [where r = fresh_rule and ts = tokens_if_open,
      THEN conjunct2, THEN conjunct2, THEN mp, OF h, THEN conjunct1, THEN mp, OF a]
  note 2 = C9_no_end_of_stream_flush [where r = fresh_rule and ts = tokens_if_closed,
      THEN conjunct2, THEN conjunct2, THEN mp, OF h, THEN conjunct2, THEN mp, OF b]
  from 1 2 show ?thesis by blast
qed

subsection \<open>Independence of the working memory\<close>

lemma same_pending_HandleToken:
  assumes "same_pending r1 r2"
  shows "same_pending (HandleToken r1 t) (HandleToken r2 t)"
proof -
  from assms have c: "same_config r1 r2" and s: "state r1 = state r2"
    and v: "violations r1 = violations r2"
    and st: "state r1 \<noteq> kNormal \<Longrightarrow> start_token r1 = start_token r2"
    and l: "state r1 = kInCondition \<Longrightarrow> condition_expr_level r1 = condition_expr_level r2"
    by (simp_all add: same_pending_def)
  have e: "IsTokenEnabled r1 t = IsTokenEnabled r2 t"
    using c by (rule IsTokenEnabled_same_config)
  have i: "if_enable r1 = if_enable r2" using c by (simp add: same_config_def)
  have c': "same_config (HandleToken r1 t) (HandleToken r2 t)"
    using same_config_HandleToken [of r1 t] same_config_HandleToken [of r2 t] c
    by (simp add: same_config_def)
  show ?thesis
  proof (cases "state r1")
    case kNormal
    then show ?thesis using s v e c'
      by (simp add: same_pending_def HandleToken_def switch_state_def Let_def)
  next
    case kInAlways
    then show ?thesis using s v st c'
      by (simp add: same_pending_def HandleToken_def switch_state_def Let_def make_violation_def)
  next
    case kInElse
    then show ?thesis using s v st i c'
      by (simp add: same_pending_def HandleToken_def switch_state_def Let_def make_violation_def)
  next
    case kInCondition
    then show ?thesis using s v st l c'
      by (simp add: same_pending_def HandleToken_def switch_state_def Let_def)
  next
    case kExpectBegin
    then show ?thesis using s v st c'
      by (simp add: same_pending_def HandleToken_def switch_state_def Let_def make_violation_def)
  qed
qed

lemma same_pending_handle_tokens:
  "same_pending r1 r2 \<Longrightarrow> same_pending (handle_tokens r1 ts) (handle_tokens r2 ts)"
  by (induction ts arbitrary: r1 r2)
     (simp_all add: handle_tokens_Nil handle_tokens_Cons same_pending_HandleToken)

text \<open>
  Claim C8. The reported violation set is a function of the configuration and of the
  token sequence alone. Two rule objects that are configured identically, are both in
  state \<open>Normal\<close> and hold no violation, as two fresh instances are, report the same after
  the same token sequence, whatever their start tokens and depths were at the start:
  nothing is read from the working memory before \<^verbatim>\<open>HandleToken\<close> has written it.
\<close>

theorem C8_instance_pure:
  "same_config r1 r2 \<Longrightarrow> state r1 = kNormal \<Longrightarrow> state r2 = kNormal \<Longrightarrow>
   violations r1 = {} \<Longrightarrow> violations r2 = {} \<Longrightarrow>
   Report (handle_tokens r1 ts) = Report (handle_tokens r2 ts)"
proof -
  assume "same_config r1 r2" and "state r1 = kNormal" and "state r2 = kNormal"
    and "violations r1 = {}" and "violations r2 = {}"
  then have "same_pending r1 r2" by (simp add: same_pending_def)
  then have "same_pending (handle_tokens r1 ts) (handle_tokens r2 ts)"
    by (rule same_pending_handle_tokens)
  then show ?thesis by (simp add: same_pending_def Report_def)
qed

theorem C8_instance_pure_witness:
  "Report (handle_tokens fresh_rule tokens_if_no_begin)
   = Report (handle_tokens
       (fresh_rule\<lparr>condition_expr_level := 7,
          start_token := \<lparr>token_enum = TK_for, text = ''for'', left = 40\<rparr>\<rparr>)
       tokens_if_no_begin)"
proof -
  let ?r2 = "fresh_rule\<lparr>condition_expr_level := 7,
          start_token := \<lparr>token_enum = TK_for, text = ''for'', left = 40\<rparr>\<rparr>"
  have c: "same_config fresh_rule ?r2" by (simp add: same_config_def)
  have s1: "state fresh_rule = kNormal" and v1: "violations fresh_rule = {}"
    by (simp_all add: fresh_rule_def)
  have s2: "state ?r2 = kNormal" and v2: "violations ?r2 = {}"
    by (simp_all add: fresh_rule_def)
  show ?thesis by (rule C8_instance_pure [OF c s1 s2 v1 v2])
qed

subsection \<open>Configuration\<close>

lemma Configure_setters_None:
  "map_of (Configure_setters pb) k = None \<longleftrightarrow> k \<notin> fst ` set enable_flags"
  by (simp add: map_of_eq_None_iff Configure_setters_def enable_flags_def)

lemma Configure_setters_Inl:
  "map_of (Configure_setters pb) k = Some setter \<Longrightarrow>
   (\<exists>e. setter v r = Inl e) \<longleftrightarrow> pb v = None"
  by (auto simp add: Configure_setters_def SetBool_def split: if_splits option.splits)

lemma Configure_setters_Inr:
  "map_of (Configure_setters pb) k = Some setter \<Longrightarrow> setter v r = Inr r' \<Longrightarrow>
   state r' = state r \<and> condition_expr_level r' = condition_expr_level r \<and>
   start_token r' = start_token r \<and> violations r' = violations r \<and>
   (\<forall>(k', f)\<in>set enable_flags. k' \<noteq> k \<longrightarrow> f r' = f r)"
  by (auto simp add: Configure_setters_def SetBool_def enable_flags_def
        split: if_splits option.splits)


lemma Configure_Nil: "Configure pb [] r = Inr r"
  by (simp add: Configure_def)

lemma Configure_Cons:
  "Configure pb ((k, v) # rest) r =
     (case map_of (Configure_setters pb) k of
        None \<Rightarrow> Inl ConfigurationError
      | Some setter \<Rightarrow>
          (case setter v r of Inl e \<Rightarrow> Inl e | Inr r' \<Rightarrow> Configure pb rest r'))"
  by (simp add: Configure_def split: option.splits sum.splits)

lemma Configure_fails_iff:
  "(\<exists>e. Configure pb cfg r = Inl e)
   \<longleftrightarrow> (\<exists>(k, v)\<in>set cfg. k \<notin> fst ` set enable_flags \<or> pb v = None)"
proof (induction cfg arbitrary: r)
  case Nil
  show ?case by (simp add: Configure_Nil)
next
  case (Cons kv rest)
  obtain k v where kv: "kv = (k, v)" by (cases kv)
  show ?case
  proof (cases "map_of (Configure_setters pb) k")
    case None
    then have "k \<notin> fst ` set enable_flags"
      using Configure_setters_None [of pb k] by simp
    with None show ?thesis by (simp add: kv Configure_Cons)
  next
    case (Some setter)
    then have k: "k \<in> fst ` set enable_flags"
      using Configure_setters_None [of pb k] by simp
    show ?thesis
    proof (cases "setter v r")
      case (Inl e)
      then have "pb v = None" using Configure_setters_Inl [OF Some, of v r] by blast
      with Some Inl show ?thesis by (simp add: kv Configure_Cons)
    next
      case (Inr r1)
      then have "pb v \<noteq> None" using Configure_setters_Inl [OF Some, of v r] by auto
      with Some Inr k Cons.IH [of r1] show ?thesis by (auto simp add: kv Configure_Cons)
    qed
  qed
qed

lemma Configure_keeps:
  "Configure pb cfg r = Inr r' \<Longrightarrow>
   state r' = state r \<and> condition_expr_level r' = condition_expr_level r \<and>
   start_token r' = start_token r \<and> violations r' = violations r \<and>
   (\<forall>(k, f)\<in>set enable_flags. k \<notin> fst ` set cfg \<longrightarrow> f r' = f r)"
proof (induction cfg arbitrary: r)
  case Nil
  then show ?case by (simp add: Configure_Nil)
next
  case (Cons kv rest)
  obtain k v where kv: "kv = (k, v)" by (cases kv)
  from Cons.prems obtain setter r1 where m: "map_of (Configure_setters pb) k = Some setter"
    and s: "setter v r = Inr r1" and c: "Configure pb rest r1 = Inr r'"
    by (auto simp add: kv Configure_Cons split: option.splits sum.splits)
  note 1 = Configure_setters_Inr [OF m s]
  note 2 = Cons.IH [OF c]
  from 1 2 show ?case by (fastforce simp add: kv)
qed

text \<open>
  Claim C7. \<^verbatim>\<open>Configure\<close> fails exactly when the configuration holds a key outside the
  eleven recognized keys or a value that is not a valid boolean token; that depends on
  the configuration alone, and \<^verbatim>\<open>Configure\<close> reads no token. When it succeeds, the state,
  the depth, the start token and the violations are as before, and the flag of every key
  that the configuration does not mention keeps its value: enabled, for a freshly
  constructed rule.
\<close>

theorem C7_configure:
  "((\<exists>e. Configure parse_bool cfg r = Inl e)
      \<longleftrightarrow> (\<exists>(k, v)\<in>set cfg. k \<notin> fst ` set enable_flags \<or> parse_bool v = None))
   \<and> (Configure parse_bool cfg r = Inr r' \<longrightarrow>
        state r' = state r \<and> condition_expr_level r' = condition_expr_level r \<and>
        start_token r' = start_token r \<and> violations r' = violations r \<and>
        (\<forall>(k, f)\<in>set enable_flags. k \<notin> fst ` set cfg \<longrightarrow> f r' = f r))
   \<and> (Configure parse_bool cfg fresh_rule = Inr r'' \<longrightarrow>
        (\<forall>(k, f)\<in>set enable_flags. k \<notin> fst ` set cfg \<longrightarrow> f r''))"
proof (intro conjI impI)
  show "(\<exists>e. Configure parse_bool cfg r = Inl e)
      \<longleftrightarrow> (\<exists>(k, v)\<in>set cfg. k \<notin> fst ` set enable_flags \<or> parse_bool v = None)"
    by (rule Configure_fails_iff)
next
  assume "Configure parse_bool cfg r = Inr r'"
  from Configure_keeps [OF this]
  show "state r' = state r" and "condition_expr_level r' = condition_expr_level r"
    and "start_token r' = start_token r" and "violations r' = violations r"
    and "\<forall>(k, f)\<in>set enable_flags. k \<notin> fst ` set cfg \<longrightarrow> f r' = f r"
    by blast+
next
  assume "Configure parse_bool cfg fresh_rule = Inr r''"
  from Configure_keeps [OF this]
  have "\<forall>(k, f)\<in>set enable_flags. k \<notin> fst ` set cfg \<longrightarrow> f r'' = f fresh_rule"
    by blast
  moreover have "\<forall>(k, f)\<in>set enable_flags. f fresh_rule"
    by (simp add: enable_flags_def fresh_rule_def)
  ultimately show "\<forall>(k, f)\<in>set enable_flags. k \<notin> fst ` set cfg \<longrightarrow> f r''"
    by fastforce
qed

theorem C7_configure_witness:
  "Configure example_parse_bool [(''if_enable'', ''false''), (''begin_enable'', ''true'')] fresh_rule
     = Inl ConfigurationError
   \<and> Configure example_parse_bool [(''if_enable'', ''maybe'')] fresh_rule
     = Inl ConfigurationError
   \<and> Configure example_parse_bool [(''if_enable'', ''false'')] fresh_rule
     = Inr (fresh_rule\<lparr>if_enable := False\<rparr>)
   \<and> else_enable (fresh_rule\<lparr>if_enable := False\<rparr>)"
proof -
  let ?c1 = "[(''if_enable'', ''false''), (''begin_enable'', ''true'')]"
  let ?c2 = "[(''if_enable'', ''maybe'')]"
  let ?c3 = "[(''if_enable'', ''false'')]"
  have 1: "\<exists>(k, v)\<in>set ?c1. k \<notin> fst ` set enable_flags \<or> example_parse_bool v = None"
    by (simp add: enable_flags_def)
  have 2: "\<exists>(k, v)\<in>set ?c2. k \<notin> fst ` set enable_flags \<or> example_parse_bool v = None"
    by (simp add: example_parse_bool_def)
  have 3: "Configure example_parse_bool ?c3 fresh_rule = Inr (fresh_rule\<lparr>if_enable := False\<rparr>)"
    by (simp add: Configure_def Configure_setters_def SetBool_def example_parse_bool_def)
  have e: "x = Inl ConfigurationError" if "\<exists>e. x = Inl e"
    for x :: "config_error + ExplicitBeginRule"
    using that by (metis config_error.exhaust)
  note a = C7_configure [where parse_bool = example_parse_bool and cfg = ?c1 and r = fresh_rule,
      THEN conjunct1, THEN iffD2, OF 1, THEN e]
  note b = C7_configure [where parse_bool = example_parse_bool and cfg = ?c2 and r = fresh_rule,
      THEN conjunct1, THEN iffD2, OF 2, THEN e]
  note c = C7_configure [where parse_bool = example_parse_bool and cfg = ?c3,
      THEN conjunct2, THEN conjunct2, THEN mp, OF 3]
  have "(''else_enable'', else_enable) \<in> set enable_flags"
    by (simp add: enable_flags_def)
  with c have "''else_enable'' \<notin> fst ` set ?c3
      \<longrightarrow> else_enable (fresh_rule\<lparr>if_enable := False\<rparr>)"
    by blast
  then have d: "else_enable (fresh_rule\<lparr>if_enable := False\<rparr>)" by simp
  show ?thesis by (intro conjI) (fact a b 3 d)+
qed

end
